theory Spec2Isabelle
  imports Main
begin

section \<open>JSON values and JavaScript objects\<close>

text \<open>
  The handlers of the notification backend (the Express application that also has the
  user routes and the PUT, PATCH and alias receipt routes; the routes it shares with
  server/index.js are the same text) read request bodies parsed from JSON and keep four
  collections of JSON records. A field value that a handler
  inspects is a JSON primitive; \<open>None\<close> stands for JavaScript's \<open>undefined\<close>, the
  value of a property that is absent. On primitives \<open>===\<close> and \<open>Array.includes\<close>
  are plain equality. Opaque payloads (\<open>data\<close>) and the \<open>targetUsers\<close> array are
  passed beside the body.
\<close>

datatype jval = JNull | JBool bool | JNum int | JStr string

type_synonym obj = "string \<rightharpoonup> jval"

fun truthy :: "jval option \<Rightarrow> bool" where
  "truthy None = False"
| "truthy (Some JNull) = False"
| "truthy (Some (JBool b)) = b"
| "truthy (Some (JNum n)) = (n \<noteq> 0)"
| "truthy (Some (JStr s)) = (s \<noteq> [])"

text \<open>\<open>a || b\<close>\<close>

definition or_else :: "jval option \<Rightarrow> jval option \<Rightarrow> jval option" where
  "or_else a b = (if truthy a then a else b)"

text \<open>\<open>Array.prototype.findIndex\<close>; \<open>None\<close> is the result -1.\<close>

fun findIndex :: "('a \<Rightarrow> bool) \<Rightarrow> 'a list \<Rightarrow> nat option" where
  "findIndex P [] = None"
| "findIndex P (x # xs) = (if P x then Some 0 else map_option Suc (findIndex P xs))"

text \<open>\<open>xs.splice(i, 1)\<close>\<close>

definition splice1 :: "nat \<Rightarrow> 'a list \<Rightarrow> 'a list" where
  "splice1 i xs = take i xs @ drop (Suc i) xs"

section \<open>The clock\<close>

text \<open>
  A handler reads the clock through \<open>Date.now()\<close> and \<open>new Date().toISOString()\<close>.
  One reading per request is passed in: the epoch milliseconds and the ISO-8601 text of
  the same instant.
\<close>

record clock =
  epoch_ms :: nat
  iso :: string

text \<open>\<open>Date.now().toString()\<close>: the decimal digits.\<close>

definition digit_char :: "nat \<Rightarrow> char" where
  "digit_char d = ''0123456789'' ! d"

fun toString :: "nat \<Rightarrow> string" where
  "toString n =
     (if n < 10 then [digit_char n]
      else toString (n div 10) @ [digit_char (n mod 10)])"

declare toString.simps [simp del]

section \<open>Records of the four collections\<close>

record message =
  msg_id :: string
  title :: jval
  body :: jval
  data :: obj
  createdAt :: string
  status :: string

record recipient =
  deviceId :: "jval option"
  token :: "jval option"
  userId :: "jval option"
  rstatus :: string
  readAt :: "string option"

record sent_message = message +
  sentAt :: string
  targetType :: "string option"
  recipients :: "recipient list"

record broadcast =
  bc_id :: string
  bc_title :: jval
  bc_message :: jval
  bc_type :: jval
  bc_data :: obj
  bc_sentAt :: string
  bc_recipients :: "jval option list"
  receivedBy :: "jval option list"

text \<open>
  A device is an open object: registration spreads the whole request body into it.
\<close>

record db =
  devices :: "obj list"
  pendingMessages :: "message list"
  sentMessages :: "sent_message list"
  broadcastMessages :: "broadcast list"

datatype error = ValidationError string | NotFound string

text \<open>The HTTP status a handler answers with.\<close>

fun http_status :: "error + 'a \<Rightarrow> nat" where
  "http_status (Inl (ValidationError _)) = 400"
| "http_status (Inl (NotFound _)) = 404"
| "http_status (Inr _) = 200"

section \<open>Device registry\<close>

text \<open>
  \<open>POST /api/devices\<close>. The answer carries
  \<open>existingDevice?.id || devices[devices.length - 1].id\<close>.
\<close>

definition new_device :: "clock \<Rightarrow> obj \<Rightarrow> obj" where
  "new_device clk device =
     [''id'' \<mapsto> JStr (toString (epoch_ms clk)),
      ''createdAt'' \<mapsto> JStr (iso clk),
      ''lastSeen'' \<mapsto> JStr (iso clk)]
     (''token'' := device ''token'',
      ''userId'' := or_else (device ''userId'') (Some JNull),
      ''platform'' := or_else (device ''platform'') (Some (JStr ''android'')))
     ++ device"

text \<open>
  \<open>Object.assign(existingDevice, {...device, lastSeen})\<close> stores every key of the
  spread copy by an ordinary assignment. The spread copy, like the parsed body and like
  a record made by the spread of \<open>new_device\<close>, can hold a key \<open>__proto__\<close> of its
  own. Assigned to a record that has that key, it overwrites it; assigned to a record
  that does not, it reaches the setter the record inherits, which stores no key (for
  \<open>null\<close> it clears the prototype, which the JSON text of the record does not
  show; the records are taken as they are read from that text).
\<close>

definition assign_device :: "clock \<Rightarrow> obj \<Rightarrow> obj \<Rightarrow> obj" where
  "assign_device clk device existingDevice =
     existingDevice ++
       ((if existingDevice ''__proto__'' = None then device(''__proto__'' := None) else device)
          (''lastSeen'' \<mapsto> JStr (iso clk)))"

definition registerDevice :: "clock \<Rightarrow> obj \<Rightarrow> db \<Rightarrow> (error + jval option) \<times> db" where
  "registerDevice clk device s =
     (if \<not> truthy (device ''token'') then (Inl (ValidationError ''FCM token is required''), s)
      else
        (case findIndex (\<lambda>d. d ''token'' = device ''token'') (devices s) of
           Some i \<Rightarrow>
             let devs = (devices s)[i := assign_device clk device (devices s ! i)]
             in (Inr (or_else ((devs ! i) ''id'') ((last devs) ''id'')),
                 s\<lparr>devices := devs\<rparr>)
         | None \<Rightarrow>
             let devs = devices s @ [new_device clk device]
             in (Inr ((last devs) ''id''), s\<lparr>devices := devs\<rparr>)))"

text \<open>\<open>POST /api/users\<close>. The answer carries the message and \<open>deviceCount\<close>.\<close>

definition placeholder_device :: "clock \<Rightarrow> obj \<Rightarrow> obj" where
  "placeholder_device clk userData =
     [''id'' \<mapsto> JStr (toString (epoch_ms clk)),
      ''createdAt'' \<mapsto> JStr (iso clk),
      ''lastSeen'' \<mapsto> JStr (iso clk)]
     (''token'' := userData ''token'',
      ''userId'' := userData ''id'',
      ''platform'' := or_else (userData ''platform'') (Some (JStr ''unknown'')),
      ''deviceName'' := or_else (userData ''deviceName'') (userData ''id''),
      ''email'' := userData ''email'')"

definition update_user_device :: "clock \<Rightarrow> obj \<Rightarrow> obj \<Rightarrow> obj" where
  "update_user_device clk userData device =
     (let d1 = device(''email'' := or_else (userData ''email'') (device ''email''));
          d2 = d1(''deviceName'' :=
                 or_else (userData ''displayName'')
                   (or_else (userData ''email'') (d1 ''deviceName'')));
          d3 = d2(''lastSeen'' \<mapsto> JStr (iso clk))
      in if truthy (userData ''token'') then d3(''token'' := userData ''token'') else d3)"

definition upsertUser :: "clock \<Rightarrow> obj \<Rightarrow> db \<Rightarrow> (error + string \<times> nat) \<times> db" where
  "upsertUser clk userData s =
     (if \<not> truthy (userData ''id'') then (Inl (ValidationError ''User ID is required''), s)
      else
        let userDevices = filter (\<lambda>d. d ''userId'' = userData ''id'') (devices s)
        in if length userDevices = 0 \<and> truthy (userData ''token'')
           then (Inr (''User updated'', 1),
                 s\<lparr>devices := devices s @ [placeholder_device clk userData]\<rparr>)
           else if length userDevices > 0
           then (Inr (''User updated'', length userDevices),
                 s\<lparr>devices :=
                      map (\<lambda>d. if d ''userId'' = userData ''id''
                               then update_user_device clk userData d else d)
                          (devices s)\<rparr>)
           else (Inr (''User created'', 0), s))"

section \<open>Message lifecycle\<close>

text \<open>\<open>POST /api/messages\<close>\<close>

definition createMessage ::
  "clock \<Rightarrow> jval option \<Rightarrow> jval option \<Rightarrow> obj option \<Rightarrow> db \<Rightarrow> (error + message) \<times> db" where
  "createMessage clk mtitle mbody mdata s =
     (if \<not> truthy mtitle \<or> \<not> truthy mbody
      then (Inl (ValidationError ''Title and body are required''), s)
      else
        let newMessage =
              \<lparr>msg_id = toString (epoch_ms clk), title = the mtitle, body = the mbody,
               data = (case mdata of None \<Rightarrow> Map.empty | Some d \<Rightarrow> d),
               createdAt = iso clk, status = ''pending''\<rparr>
        in (Inr newMessage, s\<lparr>pendingMessages := pendingMessages s @ [newMessage]\<rparr>))"

text \<open>The recipient entry built by \<open>devices.map\<close> in both send handlers.\<close>

definition to_recipient :: "obj \<Rightarrow> recipient" where
  "to_recipient d =
     \<lparr>deviceId = d ''id'', token = d ''token'', userId = d ''userId'',
      rstatus = ''sent'', readAt = None\<rparr>"

definition to_sent :: "clock \<Rightarrow> message \<Rightarrow> string option \<Rightarrow> obj list \<Rightarrow> sent_message" where
  "to_sent clk messageToSend tt targetDevices =
     \<lparr>msg_id = msg_id messageToSend, title = title messageToSend,
      body = body messageToSend, data = data messageToSend,
      createdAt = createdAt messageToSend, status = ''sent'',
      sentAt = iso clk, targetType = tt,
      recipients = map to_recipient targetDevices\<rparr>"

text \<open>\<open>POST /api/messages/send\<close>\<close>

definition sendMessage :: "clock \<Rightarrow> jval option \<Rightarrow> db \<Rightarrow> (error + sent_message) \<times> db" where
  "sendMessage clk messageId s =
     (if \<not> truthy messageId then (Inl (ValidationError ''Message ID is required''), s)
      else if length (devices s) = 0 then (Inl (NotFound ''No devices registered''), s)
      else
        (case findIndex (\<lambda>m. Some (JStr (msg_id m)) = messageId) (pendingMessages s) of
           None \<Rightarrow> (Inl (NotFound ''Message not found''), s)
         | Some messageIndex \<Rightarrow>
             let messageToSend = pendingMessages s ! messageIndex;
                 sentMessage = to_sent clk messageToSend None (devices s)
             in (Inr sentMessage,
                 s\<lparr>pendingMessages := splice1 messageIndex (pendingMessages s),
                   sentMessages := sentMessages s @ [sentMessage]\<rparr>)))"

text \<open>
  \<open>POST /api/messages/send-targeted\<close>. \<open>targetUsers\<close> is absent (\<open>None\<close>) or
  an array; an array, also an empty one, is truthy. The answer carries \<open>sentTo\<close>.
\<close>

definition select_devices :: "jval list option \<Rightarrow> obj list \<Rightarrow> obj list" where
  "select_devices targetUsers devs =
     (case targetUsers of
        None \<Rightarrow> devs
      | Some us \<Rightarrow>
          if length us > 0
          then filter (\<lambda>device. device ''userId'' \<in> Some ` set us) devs
          else devs)"

definition sendTargeted ::
  "clock \<Rightarrow> jval option \<Rightarrow> jval list option \<Rightarrow> db \<Rightarrow> (error + nat) \<times> db" where
  "sendTargeted clk messageId targetUsers s =
     (if \<not> truthy messageId then (Inl (ValidationError ''Message ID is required''), s)
      else
        (case findIndex (\<lambda>m. Some (JStr (msg_id m)) = messageId) (pendingMessages s) of
           None \<Rightarrow> (Inl (NotFound ''Message not found''), s)
         | Some messageIndex \<Rightarrow>
             let messageToSend = pendingMessages s ! messageIndex;
                 targetDevices = select_devices targetUsers (devices s)
             in if length targetDevices = 0
                then (Inl (NotFound ''No matching devices found for specified users''), s)
                else
                  let sentMessage =
                        to_sent clk messageToSend
                          (Some (if targetUsers \<noteq> None then ''specific'' else ''all''))
                          targetDevices
                  in (Inr (length targetDevices),
                      s\<lparr>pendingMessages := splice1 messageIndex (pendingMessages s),
                        sentMessages := sentMessages s @ [sentMessage]\<rparr>)))"

section \<open>Broadcasts\<close>

text \<open>\<open>POST /api/broadcasts/send\<close>. The answer carries the recipient count.\<close>

definition sendBroadcast ::
  "clock \<Rightarrow> jval option \<Rightarrow> jval option \<Rightarrow> jval option \<Rightarrow> obj option \<Rightarrow> db
     \<Rightarrow> (error + nat) \<times> db" where
  "sendBroadcast clk btitle bmessage btype bdata s =
     (if \<not> truthy btitle \<or> \<not> truthy bmessage
      then (Inl (ValidationError ''Title and message are required''), s)
      else if length (devices s) = 0 then (Inl (NotFound ''No devices registered''), s)
      else
        let broadcastId = toString (epoch_ms clk);
            newBroadcast =
              \<lparr>bc_id = broadcastId, bc_title = the btitle, bc_message = the bmessage,
               bc_type = (case btype of None \<Rightarrow> JStr ''info'' | Some t \<Rightarrow> t),
               bc_data = (case bdata of None \<Rightarrow> Map.empty | Some d \<Rightarrow> d)
                           (''source'' \<mapsto> JStr ''broadcast'',
                            ''broadcastId'' \<mapsto> JStr broadcastId),
               bc_sentAt = iso clk,
               bc_recipients = map (\<lambda>d. d ''id'') (devices s),
               receivedBy = []\<rparr>
        in (Inr (length (devices s)),
            s\<lparr>broadcastMessages := broadcastMessages s @ [newBroadcast]\<rparr>))"

text \<open>
  The update shared by the four receipt bindings:
  \<open>if (!b.receivedBy.includes(deviceId)) b.receivedBy.push(deviceId)\<close>.
\<close>

definition push_received :: "jval option \<Rightarrow> broadcast \<Rightarrow> broadcast" where
  "push_received dev b =
     (if dev \<notin> set (receivedBy b) then b\<lparr>receivedBy := receivedBy b @ [dev]\<rparr> else b)"

text \<open>\<open>POST /api/broadcasts/received\<close>\<close>

definition markBroadcastReceived :: "obj \<Rightarrow> db \<Rightarrow> (error + string) \<times> db" where
  "markBroadcastReceived receiveData s =
     (let broadcastId = receiveData ''broadcastId''; dev = receiveData ''deviceId'' in
      if \<not> truthy broadcastId \<or> \<not> truthy dev
      then (Inl (ValidationError ''Broadcast ID and Device ID are required''), s)
      else
        (case findIndex (\<lambda>b. Some (JStr (bc_id b)) = broadcastId) (broadcastMessages s) of
           None \<Rightarrow> (Inl (NotFound ''Broadcast not found''), s)
         | Some i \<Rightarrow>
             (Inr ''Broadcast marked as received'',
              s\<lparr>broadcastMessages :=
                   (broadcastMessages s)[i := push_received dev (broadcastMessages s ! i)]\<rparr>)))"

text \<open>\<open>POST /api/messages/broadcasts/received\<close>, the alias path\<close>

definition aliasBroadcastReceived :: "obj \<Rightarrow> db \<Rightarrow> (error + string) \<times> db" where
  "aliasBroadcastReceived reqBody s =
     (let broadcastId = reqBody ''broadcastId''; dev = reqBody ''deviceId'' in
      if \<not> truthy broadcastId \<or> \<not> truthy dev
      then (Inl (ValidationError ''Broadcast ID and Device ID are required''), s)
      else
        (case findIndex (\<lambda>b. Some (JStr (bc_id b)) = broadcastId) (broadcastMessages s) of
           None \<Rightarrow> (Inl (NotFound ''Broadcast not found''), s)
         | Some i \<Rightarrow>
             (Inr ''Broadcast marked as received'',
              s\<lparr>broadcastMessages :=
                   (broadcastMessages s)[i := push_received dev (broadcastMessages s ! i)]\<rparr>)))"

text \<open>\<open>PUT /api/broadcasts\<close>\<close>

definition putBroadcast :: "obj \<Rightarrow> db \<Rightarrow> (error + string) \<times> db" where
  "putBroadcast reqBody s =
     (let bid = reqBody ''id''; dev = reqBody ''deviceId''; st = reqBody ''status'' in
      if \<not> truthy bid then (Inl (ValidationError ''Broadcast ID is required''), s)
      else
        (case findIndex (\<lambda>b. Some (JStr (bc_id b)) = bid) (broadcastMessages s) of
           None \<Rightarrow> (Inl (NotFound ''Broadcast not found''), s)
         | Some i \<Rightarrow>
             (Inr ''Broadcast updated successfully'',
              if truthy dev \<and> st = Some (JStr ''received'')
              then s\<lparr>broadcastMessages :=
                     (broadcastMessages s)[i := push_received dev (broadcastMessages s ! i)]\<rparr>
              else s)))"

text \<open>\<open>PATCH /api/broadcasts\<close>\<close>

definition patchBroadcast :: "obj \<Rightarrow> db \<Rightarrow> (error + string) \<times> db" where
  "patchBroadcast reqBody s =
     (let bid = reqBody ''id''; dev = reqBody ''deviceId''; st = reqBody ''status'' in
      if \<not> truthy bid then (Inl (ValidationError ''Broadcast ID is required''), s)
      else
        (case findIndex (\<lambda>b. Some (JStr (bc_id b)) = bid) (broadcastMessages s) of
           None \<Rightarrow> (Inl (NotFound ''Broadcast not found''), s)
         | Some i \<Rightarrow>
             (Inr ''Broadcast updated successfully'',
              if truthy dev \<and> st = Some (JStr ''received'')
              then s\<lparr>broadcastMessages :=
                     (broadcastMessages s)[i := push_received dev (broadcastMessages s ! i)]\<rparr>
              else s)))"

section \<open>Read receipts\<close>

text \<open>\<open>POST /api/messages/read\<close>\<close>

definition markRead :: "clock \<Rightarrow> jval option \<Rightarrow> jval option \<Rightarrow> db \<Rightarrow> (error + string) \<times> db" where
  "markRead clk messageId dev s =
     (if \<not> truthy messageId \<or> \<not> truthy dev
      then (Inl (ValidationError ''Message ID and Device ID are required''), s)
      else
        (case findIndex (\<lambda>m. Some (JStr (msg_id m)) = messageId) (sentMessages s) of
           None \<Rightarrow> (Inl (NotFound ''Message not found''), s)
         | Some messageIndex \<Rightarrow>
             let msg = sentMessages s ! messageIndex in
             (case findIndex (\<lambda>r. deviceId r = dev) (recipients msg) of
                None \<Rightarrow> (Inl (NotFound ''Recipient not found''), s)
              | Some recipientIndex \<Rightarrow>
                  let r = (recipients msg ! recipientIndex)
                            \<lparr>readAt := Some (iso clk), rstatus := ''read''\<rparr>;
                      msg' = msg\<lparr>recipients := (recipients msg)[recipientIndex := r]\<rparr>
                  in (Inr ''Message marked as read'',
                      s\<lparr>sentMessages := (sentMessages s)[messageIndex := msg']\<rparr>))))"

section \<open>Sequences of requests\<close>

text \<open>
  Requests are handled one after the other, each to completion. A request names its
  route and carries the clock reading of its handling and its body.
\<close>

datatype request =
    PostDevices clock obj
  | PostUsers clock obj
  | PostMessages clock "jval option" "jval option" "obj option"
  | PostMessagesSend clock "jval option"
  | PostMessagesSendTargeted clock "jval option" "jval list option"
  | PostMessagesRead clock "jval option" "jval option"
  | PostBroadcastsSend clock "jval option" "jval option" "jval option" "obj option"
  | PostBroadcastsReceived obj
  | PostMessagesBroadcastsReceived obj
  | PutBroadcasts obj
  | PatchBroadcasts obj

fun handle :: "request \<Rightarrow> db \<Rightarrow> db" where
  "handle (PostDevices clk device) s = snd (registerDevice clk device s)"
| "handle (PostUsers clk userData) s = snd (upsertUser clk userData s)"
| "handle (PostMessages clk t b d) s = snd (createMessage clk t b d s)"
| "handle (PostMessagesSend clk m) s = snd (sendMessage clk m s)"
| "handle (PostMessagesSendTargeted clk m us) s = snd (sendTargeted clk m us s)"
| "handle (PostMessagesRead clk m d) s = snd (markRead clk m d s)"
| "handle (PostBroadcastsSend clk t m ty d) s = snd (sendBroadcast clk t m ty d s)"
| "handle (PostBroadcastsReceived b) s = snd (markBroadcastReceived b s)"
| "handle (PostMessagesBroadcastsReceived b) s = snd (aliasBroadcastReceived b s)"
| "handle (PutBroadcasts b) s = snd (putBroadcast b s)"
| "handle (PatchBroadcasts b) s = snd (patchBroadcast b s)"

fun run :: "request list \<Rightarrow> db \<Rightarrow> db" where
  "run [] s = s"
| "run (r # rs) s = run rs (handle r s)"

fun is_PostUsers :: "request \<Rightarrow> bool" where
  "is_PostUsers (PostUsers _ _) = True"
| "is_PostUsers _ = False"

text \<open>The collections as the server starts with them.\<close>

definition empty_db :: db where
  "empty_db = \<lparr>devices = [], pendingMessages = [], sentMessages = [], broadcastMessages = []\<rparr>"

section \<open>Properties stated about the collections\<close>

text \<open>At most one device record per push token.\<close>

definition token_unique :: "obj list \<Rightarrow> bool" where
  "token_unique devs = distinct (map (\<lambda>d. d ''token'') devs)"

text \<open>The number of records of a collection that carry a given message id.\<close>

definition count_id :: "string \<Rightarrow> ('a message_scheme) list \<Rightarrow> nat" where
  "count_id i ms = length (filter (\<lambda>m. msg_id m = i) ms)"

text \<open>
  Timestamps are ISO-8601 texts of one format, so the later instant is the greater
  string in JavaScript's comparison of strings (code unit by code unit); a field that
  holds no text is not comparable.
\<close>

fun str_le :: "string \<Rightarrow> string \<Rightarrow> bool" where
  "str_le [] ys = True"
| "str_le (x # xs) [] = False"
| "str_le (x # xs) (y # ys) =
     ((of_char x :: nat) < of_char y \<or> (x = y \<and> str_le xs ys))"

fun later_or_equal :: "jval option \<Rightarrow> jval option \<Rightarrow> bool" where
  "later_or_equal (Some (JStr new)) (Some (JStr old)) = str_le old new"
| "later_or_equal _ _ = False"

text \<open>\<open>receivedBy\<close> within \<open>recipients\<close>, for one broadcast.\<close>

definition received_within :: "broadcast \<Rightarrow> bool" where
  "received_within b = (set (receivedBy b) \<subseteq> set (bc_recipients b))"

text \<open>The same receipt request handled \<open>n\<close> times in a row.\<close>

definition markBroadcastReceived_times :: "nat \<Rightarrow> obj \<Rightarrow> db \<Rightarrow> db" where
  "markBroadcastReceived_times n receiveData s =
     ((\<lambda>t. snd (markBroadcastReceived receiveData t)) ^^ n) s"

text \<open>No broadcast of the state has a device id twice in \<open>receivedBy\<close>.\<close>

definition receipts_distinct :: "db \<Rightarrow> bool" where
  "receipts_distinct s = list_all (\<lambda>b. distinct (receivedBy b)) (broadcastMessages s)"

text \<open>
  The upsertUser requests that leave at most one device record per token: those
  without a user id or without a push token, and those for a user with at most one
  device whose token no device of another user carries.
\<close>

definition upsert_keeps_tokens :: "obj \<Rightarrow> obj list \<Rightarrow> bool" where
  "upsert_keeps_tokens userData devs =
     (\<not> truthy (userData ''id'') \<or> \<not> truthy (userData ''token'') \<or>
      (length (filter (\<lambda>d. d ''userId'' = userData ''id'') devs) \<le> 1 \<and>
       userData ''token'' \<notin>
         set (map (\<lambda>d. d ''token'') (filter (\<lambda>d. d ''userId'' \<noteq> userData ''id'') devs))))"

fun keeps_tokens :: "request \<Rightarrow> db \<Rightarrow> bool" where
  "keeps_tokens (PostUsers clk userData) s = upsert_keeps_tokens userData (devices s)"
| "keeps_tokens _ s = True"

text \<open>Every request of the sequence keeps the tokens in the state it is handled in.\<close>

fun token_safe :: "request list \<Rightarrow> db \<Rightarrow> bool" where
  "token_safe [] s = True"
| "token_safe (r # rs) s = (keeps_tokens r s \<and> token_safe rs (handle r s))"

text \<open>
  The clock reading a request is handled at; the four receipt bindings read no clock.
\<close>

fun request_clock :: "request \<Rightarrow> clock option" where
  "request_clock (PostDevices clk _) = Some clk"
| "request_clock (PostUsers clk _) = Some clk"
| "request_clock (PostMessages clk _ _ _) = Some clk"
| "request_clock (PostMessagesSend clk _) = Some clk"
| "request_clock (PostMessagesSendTargeted clk _ _) = Some clk"
| "request_clock (PostMessagesRead clk _ _) = Some clk"
| "request_clock (PostBroadcastsSend clk _ _ _ _) = Some clk"
| "request_clock _ = None"

text \<open>
  The clock does not go back: starting from the reading \<open>c\<close>, every request of the
  sequence is handled at a reading that is not earlier than the one before.
\<close>

fun clock_steady :: "string \<Rightarrow> request list \<Rightarrow> bool" where
  "clock_steady c [] = True"
| "clock_steady c (r # rs) =
     (case request_clock r of
        None \<Rightarrow> clock_steady c rs
      | Some clk \<Rightarrow> str_le c (iso clk) \<and> clock_steady (iso clk) rs)"

fun last_reading :: "string \<Rightarrow> request list \<Rightarrow> string" where
  "last_reading c [] = c"
| "last_reading c (r # rs) =
     last_reading (case request_clock r of None \<Rightarrow> c | Some clk \<Rightarrow> iso clk) rs"

text \<open>A registration whose body brings its own \<open>lastSeen\<close>.\<close>

fun supplies_lastSeen :: "request \<Rightarrow> bool" where
  "supplies_lastSeen (PostDevices clk device) = (device ''lastSeen'' \<noteq> None)"
| "supplies_lastSeen _ = False"

text \<open>Every device record carries a \<open>lastSeen\<close> timestamp that is not later than \<open>c\<close>.\<close>

definition stamped :: "string \<Rightarrow> obj list \<Rightarrow> bool" where
  "stamped c devs = list_all (\<lambda>d. later_or_equal (Some (JStr c)) (d ''lastSeen'')) devs"

section \<open>Example requests and states\<close>

definition clk_a :: clock where
  "clk_a = \<lparr>epoch_ms = 1704067200000, iso = ''2024-01-01T00:00:00.000Z''\<rparr>"

definition clk_b :: clock where
  "clk_b = \<lparr>epoch_ms = 1704153600000, iso = ''2024-01-02T00:00:00.000Z''\<rparr>"

definition dev_t1 :: obj where
  "dev_t1 = [''token'' \<mapsto> JStr ''t1'', ''userId'' \<mapsto> JStr ''u1'']"

definition dev_t2 :: obj where
  "dev_t2 = [''token'' \<mapsto> JStr ''t2'', ''userId'' \<mapsto> JStr ''u1'']"

text \<open>One device of user u1 and one pending message, created at \<open>clk_a\<close>.\<close>

definition st_device_and_message :: db where
  "st_device_and_message =
     run [PostDevices clk_a dev_t1,
          PostMessages clk_a (Some (JStr ''A'')) (Some (JStr ''B'')) None] empty_db"

definition user_u9 :: obj where
  "user_u9 = [''id'' \<mapsto> JStr ''u9'']"

text \<open>No device and one pending message.\<close>

definition st_message_only :: db where
  "st_message_only =
     run [PostMessages clk_a (Some (JStr ''A'')) (Some (JStr ''B'')) None] empty_db"

text \<open>
  One device and one broadcast sent to it at \<open>clk_b\<close>; the device's id is
  1704067200000 and the broadcast's id is 1704153600000.
\<close>

definition st_broadcast :: db where
  "st_broadcast =
     run [PostDevices clk_a dev_t1,
          PostBroadcastsSend clk_b (Some (JStr ''Hello'')) (Some (JStr ''World'')) None None]
       empty_db"

text \<open>A receipt from a device id that no device has.\<close>

definition recv_ghost :: obj where
  "recv_ghost = [''broadcastId'' \<mapsto> JStr ''1704153600000'', ''deviceId'' \<mapsto> JStr ''ghost'']"

text \<open>A receipt from the registered device.\<close>

definition recv_dev1 :: obj where
  "recv_dev1 =
     [''broadcastId'' \<mapsto> JStr ''1704153600000'', ''deviceId'' \<mapsto> JStr ''1704067200000'']"

text \<open>Requests that name the broadcast under both keys the bindings read.\<close>

definition req_ids :: obj where
  "req_ids =
     [''broadcastId'' \<mapsto> JStr ''1704153600000'', ''id'' \<mapsto> JStr ''1704153600000'',
      ''deviceId'' \<mapsto> JStr ''1704067200000'']"

definition req_no_device :: obj where
  "req_no_device =
     [''broadcastId'' \<mapsto> JStr ''1704153600000'', ''id'' \<mapsto> JStr ''1704153600000'']"

definition req_received :: obj where
  "req_received =
     [''broadcastId'' \<mapsto> JStr ''1704153600000'', ''id'' \<mapsto> JStr ''1704153600000'',
      ''deviceId'' \<mapsto> JStr ''1704067200000'', ''status'' \<mapsto> JStr ''received'']"

text \<open>
  One device and two messages created in the same millisecond: both carry the id
  1704067200000.
\<close>

definition st_two_same_id :: db where
  "st_two_same_id =
     run [PostDevices clk_a dev_t1,
          PostMessages clk_a (Some (JStr ''A'')) (Some (JStr ''B'')) None,
          PostMessages clk_a (Some (JStr ''A'')) (Some (JStr ''B'')) None] empty_db"

text \<open>Two devices of user u1, with tokens t1 and t2.\<close>

definition reqs_two_devices :: "request list" where
  "reqs_two_devices = [PostDevices clk_a dev_t1, PostDevices clk_a dev_t2]"

definition st_two_devices :: db where
  "st_two_devices = run reqs_two_devices empty_db"

text \<open>An update of user u1 that carries a push token.\<close>

definition user_u1_t3 :: obj where
  "user_u1_t3 = [''id'' \<mapsto> JStr ''u1'', ''token'' \<mapsto> JStr ''t3'']"

text \<open>A first registration of token t1 that supplies its own \<open>lastSeen\<close>.\<close>

definition dev_t1_future :: obj where
  "dev_t1_future =
     [''token'' \<mapsto> JStr ''t1'', ''lastSeen'' \<mapsto> JStr ''2999-01-01T00:00:00.000Z'']"

text \<open>One device, registered at \<open>clk_a\<close> with token t1.\<close>

definition st_one_device :: db where
  "st_one_device = snd (registerDevice clk_a dev_t1 empty_db)"

text \<open>
  One device and two broadcasts sent in the same millisecond: both carry the id
  1704153600000.
\<close>

definition st_two_broadcasts :: db where
  "st_two_broadcasts =
     run [PostDevices clk_a dev_t1,
          PostBroadcastsSend clk_b (Some (JStr ''Hello'')) (Some (JStr ''World'')) None None,
          PostBroadcastsSend clk_b (Some (JStr ''Hello'')) (Some (JStr ''Again'')) None None]
       empty_db"

text \<open>Requests to the PUT binding: the id under the other key, and an unknown id.\<close>

definition req_unknown :: obj where
  "req_unknown = [''id'' \<mapsto> JStr ''nope'', ''deviceId'' \<mapsto> JStr ''1704067200000'']"

text \<open>A user without devices takes the token of another user's device.\<close>

definition user_u2_t1 :: obj where
  "user_u2_t1 = [''id'' \<mapsto> JStr ''u2'', ''token'' \<mapsto> JStr ''t1'']"

text \<open>The registration of token t1 at \<open>clk_a\<close>, as a sequence of requests.\<close>

definition reqs_register_t1 :: "request list" where
  "reqs_register_t1 = [PostDevices clk_a dev_t1]"

text \<open>A receipt whose device id is the empty string.\<close>

definition recv_empty_device :: obj where
  "recv_empty_device = [''broadcastId'' \<mapsto> JStr ''1704153600000'', ''deviceId'' \<mapsto> JStr []]"

lemmas handler_defs =
  registerDevice_def upsertUser_def createMessage_def sendMessage_def sendTargeted_def
  sendBroadcast_def markBroadcastReceived_def aliasBroadcastReceived_def putBroadcast_def
  patchBroadcast_def markRead_def new_device_def assign_device_def placeholder_device_def
  update_user_device_def to_recipient_def to_sent_def select_devices_def push_received_def
  or_else_def splice1_def empty_db_def toString.simps digit_char_def Let_def

section \<open>Facts about the list helpers\<close>

lemma findIndex_Some:
  "findIndex P xs = Some i \<Longrightarrow> i < length xs \<and> P (xs ! i) \<and> (\<forall>j<i. \<not> P (xs ! j))"
proof (induction xs arbitrary: i)
  case Nil
  then show ?case by simp
next
  case (Cons x xs)
  show ?case
  proof (cases "P x")
    case True
    with Cons.prems show ?thesis by simp
  next
    case False
    with Cons.prems obtain k where k: "findIndex P xs = Some k" "i = Suc k"
      by auto
    from Cons.IH [OF k(1)] False k(2) show ?thesis
      by (auto simp: less_Suc_eq_0_disj)
  qed
qed

lemma findIndex_None: "findIndex P xs = None \<longleftrightarrow> (\<forall>x\<in>set xs. \<not> P x)"
  by (induction xs) auto

lemma findIndex_exists: "\<exists>x\<in>set xs. P x \<Longrightarrow> \<exists>i. findIndex P xs = Some i"
  using findIndex_None [of P xs] by (cases "findIndex P xs") auto

lemma list_all_update: "list_all P xs \<Longrightarrow> P y \<Longrightarrow> list_all P (xs[i := y])"
  by (induction xs arbitrary: i) (auto split: nat.splits)

section \<open>Sending\<close>

text \<open>
  C4, as stated, fails for a request that carries no message id (absent, null or the
  empty string): the handler answers ValidationError before it looks at the registry.
\<close>

theorem sendMessage_without_id_counterexample:
  "devices st_message_only = [] \<and>
   sendMessage clk_b (Some (JStr [])) st_message_only =
     (Inl (ValidationError ''Message ID is required''), st_message_only) \<and>
   sendMessage clk_b None st_message_only =
     (Inl (ValidationError ''Message ID is required''), st_message_only) \<and>
   sendMessage clk_b (Some (JStr [])) st_message_only \<noteq>
     (Inl (NotFound ''No devices registered''), st_message_only)"
proof -
  have d: "devices st_message_only = []"
    by (simp add: st_message_only_def handler_defs)
  then show ?thesis by (simp add: sendMessage_def)
qed

text \<open>
  C4, amended. With an empty device registry, sendMessage fails and modifies no
  collection, whatever the message id: with NotFound (no devices registered) for every
  message id that the request carries, whether or not a pending message has it (the
  registry is checked before the message is looked up), and with ValidationError for a
  request that carries none.
\<close>

theorem sendMessage_empty_registry:
  "devices s = [] \<Longrightarrow>
   sendMessage clk messageId s =
     (Inl (if truthy messageId then NotFound ''No devices registered''
           else ValidationError ''Message ID is required''), s)"
  by (simp add: sendMessage_def)

theorem sendMessage_empty_registry_witness:
  "devices st_message_only = [] \<and>
   msg_id (pendingMessages st_message_only ! 0) = ''1704067200000'' \<and>
   sendMessage clk_b (Some (JStr ''1704067200000'')) st_message_only =
     (Inl (NotFound ''No devices registered''), st_message_only) \<and>
   sendMessage clk_b (Some (JStr ''no such id'')) st_message_only =
     (Inl (NotFound ''No devices registered''), st_message_only)"
proof -
  have d: "devices st_message_only = []"
    by (simp add: st_message_only_def handler_defs)
  have m: "msg_id (pendingMessages st_message_only ! 0) = ''1704067200000''"
    by (simp add: st_message_only_def clk_a_def handler_defs)
  from sendMessage_empty_registry [OF d, of clk_b "Some (JStr ''1704067200000'')"]
  have a: "sendMessage clk_b (Some (JStr ''1704067200000'')) st_message_only =
     (Inl (NotFound ''No devices registered''), st_message_only)" by simp
  from sendMessage_empty_registry [OF d, of clk_b "Some (JStr ''no such id'')"]
  have b: "sendMessage clk_b (Some (JStr ''no such id'')) st_message_only =
     (Inl (NotFound ''No devices registered''), st_message_only)" by simp
  from d m a b show ?thesis by blast
qed

text \<open>
  C3. When a pending message with the given id exists and sendTargeted selects no
  device (no device's userId is in the non-empty target set, or there is no device in
  the all-devices branch), it fails with NotFound and the state is unchanged: the
  message stays in pending and nothing is appended to sent.
\<close>

theorem sendTargeted_no_match:
  assumes "truthy messageId"
    and "\<exists>m\<in>set (pendingMessages s). Some (JStr (msg_id m)) = messageId"
    and "select_devices targetUsers (devices s) = []"
  shows "sendTargeted clk messageId targetUsers s =
           (Inl (NotFound ''No matching devices found for specified users''), s)"
proof -
  from findIndex_exists [of "pendingMessages s" "\<lambda>m. Some (JStr (msg_id m)) = messageId"]
    assms(2)
  obtain i where
    "findIndex (\<lambda>m. Some (JStr (msg_id m)) = messageId) (pendingMessages s) = Some i"
    by blast
  with assms(1,3) show ?thesis by (simp add: sendTargeted_def)
qed

theorem sendTargeted_no_match_witness:
  "truthy (Some (JStr ''1704067200000'')) \<and>
   (\<exists>m\<in>set (pendingMessages st_device_and_message).
      Some (JStr (msg_id m)) = Some (JStr ''1704067200000'')) \<and>
   devices st_device_and_message \<noteq> [] \<and>
   select_devices (Some [JStr ''u9'']) (devices st_device_and_message) = [] \<and>
   sendTargeted clk_b (Some (JStr ''1704067200000'')) (Some [JStr ''u9''])
       st_device_and_message =
     (Inl (NotFound ''No matching devices found for specified users''),
      st_device_and_message)"
proof -
  have t: "truthy (Some (JStr ''1704067200000''))" by simp
  have m: "\<exists>m\<in>set (pendingMessages st_device_and_message).
             Some (JStr (msg_id m)) = Some (JStr ''1704067200000'')"
    by (simp add: st_device_and_message_def clk_a_def dev_t1_def handler_defs)
  have d: "devices st_device_and_message \<noteq> []"
    by (simp add: st_device_and_message_def clk_a_def dev_t1_def handler_defs)
  have e: "select_devices (Some [JStr ''u9'']) (devices st_device_and_message) = []"
    by (simp add: st_device_and_message_def clk_a_def dev_t1_def handler_defs)
  from t m d e sendTargeted_no_match [OF t m e, of clk_b] show ?thesis by blast
qed

section \<open>Users\<close>

text \<open>
  C10. For a user identifier that owns no device, upsertUser without a push token
  answers success, reporting deviceCount 0, and leaves the state unchanged.
\<close>

theorem upsertUser_no_devices_no_token:
  "truthy (userData ''id'') \<Longrightarrow>
   filter (\<lambda>d. d ''userId'' = userData ''id'') (devices s) = [] \<Longrightarrow>
   \<not> truthy (userData ''token'') \<Longrightarrow>
   upsertUser clk userData s = (Inr (''User created'', 0), s)"
  by (simp add: upsertUser_def)

theorem upsertUser_no_devices_no_token_witness:
  "truthy (user_u9 ''id'') \<and>
   filter (\<lambda>d. d ''userId'' = user_u9 ''id'') (devices st_device_and_message) = [] \<and>
   \<not> truthy (user_u9 ''token'') \<and>
   upsertUser clk_b user_u9 st_device_and_message =
     (Inr (''User created'', 0), st_device_and_message)"
proof -
  have i: "truthy (user_u9 ''id'')" by (simp add: user_u9_def)
  have f: "filter (\<lambda>d. d ''userId'' = user_u9 ''id'') (devices st_device_and_message) = []"
    by (simp add: user_u9_def st_device_and_message_def clk_a_def dev_t1_def handler_defs)
  have n: "\<not> truthy (user_u9 ''token'')" by (simp add: user_u9_def)
  from i f n upsertUser_no_devices_no_token [OF i f n, of clk_b] show ?thesis by blast
qed

section \<open>Broadcast receipts\<close>


lemma findIndex_cong_map: "map P xs = map P ys \<Longrightarrow> findIndex P xs = findIndex P ys"
proof (induction xs arbitrary: ys)
  case Nil
  then show ?case by simp
next
  case (Cons x xs)
  then obtain y ys' where "ys = y # ys'" by (cases ys) auto
  with Cons show ?case by auto
qed

lemma findIndex_update:
  assumes "findIndex P xs = Some i" and "P y"
  shows "findIndex P (xs[i := y]) = Some i"
proof -
  from findIndex_Some [OF assms(1)] have i: "i < length xs" "P (xs ! i)" by auto
  have "map P (xs[i := y]) = (map P xs)[i := P y]" by (simp add: map_update)
  also have "\<dots> = map P xs" using i assms(2) by (simp add: list_update_same_conv)
  finally show ?thesis using assms(1) findIndex_cong_map by metis
qed

lemma bc_id_push_received [simp]: "bc_id (push_received dev b) = bc_id b"
  by (simp add: push_received_def)

lemma bc_recipients_push_received [simp]:
  "bc_recipients (push_received dev b) = bc_recipients b"
  by (simp add: push_received_def)

lemma set_push_received [simp]:
  "set (receivedBy (push_received dev b)) = insert dev (set (receivedBy b))"
  by (auto simp: push_received_def)

lemma distinct_push_received:
  "distinct (receivedBy b) \<Longrightarrow> distinct (receivedBy (push_received dev b))"
  by (simp add: push_received_def)

lemma push_received_twice [simp]:
  "push_received dev (push_received dev b) = push_received dev b"
  by (simp add: push_received_def)

text \<open>The effect of one accepted receipt on the state.\<close>

lemma markBroadcastReceived_found:
  assumes "truthy (receiveData ''broadcastId'')" and "truthy (receiveData ''deviceId'')"
    and "findIndex (\<lambda>b. Some (JStr (bc_id b)) = receiveData ''broadcastId'')
           (broadcastMessages s) = Some i"
  shows "markBroadcastReceived receiveData s =
           (Inr ''Broadcast marked as received'',
            s\<lparr>broadcastMessages :=
                 (broadcastMessages s)
                   [i := push_received (receiveData ''deviceId'') (broadcastMessages s ! i)]\<rparr>)"
  using assms by (simp add: markBroadcastReceived_def)

lemma markBroadcastReceived_found_again:
  assumes "truthy (receiveData ''broadcastId'')" and "truthy (receiveData ''deviceId'')"
    and "findIndex (\<lambda>b. Some (JStr (bc_id b)) = receiveData ''broadcastId'')
           (broadcastMessages s) = Some i"
  shows "findIndex (\<lambda>b. Some (JStr (bc_id b)) = receiveData ''broadcastId'')
           (broadcastMessages (snd (markBroadcastReceived receiveData s))) = Some i"
proof -
  from findIndex_Some [OF assms(3)]
  have "Some (JStr (bc_id (broadcastMessages s ! i))) = receiveData ''broadcastId''" by simp
  then have "Some (JStr (bc_id (push_received (receiveData ''deviceId'')
               (broadcastMessages s ! i)))) = receiveData ''broadcastId''" by simp
  from findIndex_update [OF assms(3), where y = "push_received (receiveData ''deviceId'')
      (broadcastMessages s ! i)", OF this]
  show ?thesis by (simp add: markBroadcastReceived_found [OF assms])
qed

lemma markBroadcastReceived_twice:
  assumes "truthy (receiveData ''broadcastId'')" and "truthy (receiveData ''deviceId'')"
    and "findIndex (\<lambda>b. Some (JStr (bc_id b)) = receiveData ''broadcastId'')
           (broadcastMessages s) = Some i"
  shows "snd (markBroadcastReceived receiveData (snd (markBroadcastReceived receiveData s)))
           = snd (markBroadcastReceived receiveData s)"
proof -
  let ?s1 = "snd (markBroadcastReceived receiveData s)"
  note again = markBroadcastReceived_found_again [OF assms]
  from findIndex_Some [OF assms(3)] have i: "i < length (broadcastMessages s)" by simp
  have bs1: "broadcastMessages ?s1 =
      (broadcastMessages s)
         [i := push_received (receiveData ''deviceId'') (broadcastMessages s ! i)]"
    by (simp add: markBroadcastReceived_found [OF assms])
  show ?thesis
    by (simp add: markBroadcastReceived_found [OF assms(1,2) again] bs1 i)
qed

lemma count_list_distinct:
  "distinct xs \<Longrightarrow> x \<in> set xs \<Longrightarrow> count_list xs x = 1"
  by (induction xs) auto

lemma funpow_fixed: "f (f s) = f s \<Longrightarrow> (f ^^ Suc n) s = f s"
  by (induction n) simp_all

lemma markBroadcastReceived_times_Suc:
  assumes "truthy (receiveData ''broadcastId'')" and "truthy (receiveData ''deviceId'')"
    and "findIndex (\<lambda>b. Some (JStr (bc_id b)) = receiveData ''broadcastId'')
           (broadcastMessages s) = Some i"
  shows "markBroadcastReceived_times (Suc k) receiveData s =
           s\<lparr>broadcastMessages :=
                (broadcastMessages s)
                  [i := push_received (receiveData ''deviceId'') (broadcastMessages s ! i)]\<rparr>"
proof -
  let ?f = "\<lambda>t. snd (markBroadcastReceived receiveData t)"
  have "?f (?f s) = ?f s" by (rule markBroadcastReceived_twice [OF assms])
  from funpow_fixed [OF this]
  have "markBroadcastReceived_times (Suc k) receiveData s = ?f s"
    by (simp only: markBroadcastReceived_times_def)
  then show ?thesis by (simp add: markBroadcastReceived_found [OF assms])
qed

lemma st_two_broadcasts_ids:
  "map bc_id (broadcastMessages st_two_broadcasts) = [''1704153600000'', ''1704153600000'']"
  by (simp add: st_two_broadcasts_def clk_a_def clk_b_def dev_t1_def handler_defs)

lemma st_two_broadcasts_received:
  "map receivedBy (broadcastMessages st_two_broadcasts) = [[], []]"
  by (simp add: st_two_broadcasts_def clk_a_def clk_b_def dev_t1_def handler_defs)

section \<open>The four bindings of the broadcast receipt\<close>

lemma alias_eq: "aliasBroadcastReceived = markBroadcastReceived"
  by (intro ext) (simp add: aliasBroadcastReceived_def markBroadcastReceived_def)

lemma patch_eq: "patchBroadcast = putBroadcast"
  by (intro ext) (simp add: patchBroadcast_def putBroadcast_def)

text \<open>
  C8, as stated, fails: on a request that names the broadcast and the device, the POST
  binding records the receipt and the PUT binding does not; on a request that names
  the broadcast and no device, POST answers 400 and PUT answers 200.
\<close>

theorem receipt_bindings_differ_counterexample:
  "receivedBy (broadcastMessages (snd (markBroadcastReceived req_ids st_broadcast)) ! 0)
     = [Some (JStr ''1704067200000'')] \<and>
   receivedBy (broadcastMessages (snd (putBroadcast req_ids st_broadcast)) ! 0) = [] \<and>
   http_status (fst (markBroadcastReceived req_no_device st_broadcast)) = 400 \<and>
   http_status (fst (putBroadcast req_no_device st_broadcast)) = 200"
  by (simp add: req_ids_def req_no_device_def st_broadcast_def clk_a_def clk_b_def
      dev_t1_def handler_defs)

text \<open>
  C8, amended. The POST binding and its alias are the same function of request and
  state, and so are the PUT and PATCH bindings. PUT and PATCH read the broadcast id
  from \<open>id\<close>: without it they answer ValidationError, with an id that no broadcast has
  they answer NotFound, and otherwise they answer success, without any change unless the
  request carries a device id and status "received". On every request with a device id
  and status "received" they give the state and the HTTP status that the POST binding
  gives on the same request with the value of \<open>id\<close> under \<open>broadcastId\<close>.
\<close>

theorem receipt_bindings_related:
  "aliasBroadcastReceived = markBroadcastReceived \<and>
   patchBroadcast = putBroadcast \<and>
   (\<not> truthy (reqBody ''id'') \<longrightarrow>
      putBroadcast reqBody s = (Inl (ValidationError ''Broadcast ID is required''), s)) \<and>
   (truthy (reqBody ''id'') \<and>
    findIndex (\<lambda>b. Some (JStr (bc_id b)) = reqBody ''id'') (broadcastMessages s) = None \<longrightarrow>
      putBroadcast reqBody s = (Inl (NotFound ''Broadcast not found''), s)) \<and>
   (truthy (reqBody ''id'') \<and>
    findIndex (\<lambda>b. Some (JStr (bc_id b)) = reqBody ''id'') (broadcastMessages s) \<noteq> None \<and>
    \<not> (truthy (reqBody ''deviceId'') \<and> reqBody ''status'' = Some (JStr ''received'')) \<longrightarrow>
      putBroadcast reqBody s = (Inr ''Broadcast updated successfully'', s)) \<and>
   (truthy (reqBody ''deviceId'') \<and> reqBody ''status'' = Some (JStr ''received'') \<longrightarrow>
      snd (putBroadcast reqBody s) =
        snd (markBroadcastReceived (reqBody(''broadcastId'' := reqBody ''id'')) s) \<and>
      http_status (fst (putBroadcast reqBody s)) =
        http_status (fst (markBroadcastReceived (reqBody(''broadcastId'' := reqBody ''id'')) s)))"
proof (intro conjI impI)
  show "aliasBroadcastReceived = markBroadcastReceived" by (rule alias_eq)
  show "patchBroadcast = putBroadcast" by (rule patch_eq)
  show "putBroadcast reqBody s = (Inl (ValidationError ''Broadcast ID is required''), s)"
    if "\<not> truthy (reqBody ''id'')"
    using that by (simp add: putBroadcast_def)
  show "putBroadcast reqBody s = (Inl (NotFound ''Broadcast not found''), s)"
    if "truthy (reqBody ''id'') \<and>
        findIndex (\<lambda>b. Some (JStr (bc_id b)) = reqBody ''id'') (broadcastMessages s) = None"
    using that by (simp add: putBroadcast_def)
  show "putBroadcast reqBody s = (Inr ''Broadcast updated successfully'', s)"
    if "truthy (reqBody ''id'') \<and>
        findIndex (\<lambda>b. Some (JStr (bc_id b)) = reqBody ''id'') (broadcastMessages s) \<noteq> None \<and>
        \<not> (truthy (reqBody ''deviceId'') \<and> reqBody ''status'' = Some (JStr ''received''))"
    using that by (auto simp: putBroadcast_def Let_def)
  show "snd (putBroadcast reqBody s) =
          snd (markBroadcastReceived (reqBody(''broadcastId'' := reqBody ''id'')) s)"
    if "truthy (reqBody ''deviceId'') \<and> reqBody ''status'' = Some (JStr ''received'')"
    using that
    by (simp add: putBroadcast_def markBroadcastReceived_def Let_def split: option.splits)
  show "http_status (fst (putBroadcast reqBody s)) =
          http_status (fst (markBroadcastReceived (reqBody(''broadcastId'' := reqBody ''id'')) s))"
    if "truthy (reqBody ''deviceId'') \<and> reqBody ''status'' = Some (JStr ''received'')"
    using that
    by (simp add: putBroadcast_def markBroadcastReceived_def Let_def split: option.splits)
qed

lemma st_broadcast_ids: "map bc_id (broadcastMessages st_broadcast) = [''1704153600000'']"
  by (simp add: st_broadcast_def clk_a_def clk_b_def dev_t1_def handler_defs)

theorem receipt_bindings_related_witness:
  "\<not> truthy (recv_dev1 ''id'') \<and>
   putBroadcast recv_dev1 st_broadcast =
     (Inl (ValidationError ''Broadcast ID is required''), st_broadcast) \<and>
   truthy (req_unknown ''id'') \<and>
   putBroadcast req_unknown st_broadcast = (Inl (NotFound ''Broadcast not found''), st_broadcast) \<and>
   truthy (req_no_device ''id'') \<and> \<not> truthy (req_no_device ''deviceId'') \<and>
   putBroadcast req_no_device st_broadcast =
     (Inr ''Broadcast updated successfully'', st_broadcast) \<and>
   truthy (req_ids ''deviceId'') \<and> req_ids ''status'' \<noteq> Some (JStr ''received'') \<and>
   putBroadcast req_ids st_broadcast = (Inr ''Broadcast updated successfully'', st_broadcast) \<and>
   truthy (req_received ''deviceId'') \<and> req_received ''status'' = Some (JStr ''received'') \<and>
   req_received(''broadcastId'' := req_received ''id'') = req_received \<and>
   snd (putBroadcast req_received st_broadcast) =
     snd (markBroadcastReceived req_received st_broadcast) \<and>
   http_status (fst (putBroadcast req_received st_broadcast)) =
     http_status (fst (markBroadcastReceived req_received st_broadcast))"
proof -
  obtain x where x: "broadcastMessages st_broadcast = [x]" "bc_id x = ''1704153600000''"
    using st_broadcast_ids by (auto simp: map_eq_Cons_conv)
  have a1: "\<not> truthy (recv_dev1 ''id'')" by (simp add: recv_dev1_def)
  have b1: "truthy (req_unknown ''id'')" by (simp add: req_unknown_def)
  have b2: "findIndex (\<lambda>b. Some (JStr (bc_id b)) = req_unknown ''id'')
              (broadcastMessages st_broadcast) = None"
    by (simp add: req_unknown_def x)
  have c1: "truthy (req_no_device ''id'')" by (simp add: req_no_device_def)
  have c2: "findIndex (\<lambda>b. Some (JStr (bc_id b)) = req_no_device ''id'')
              (broadcastMessages st_broadcast) \<noteq> None"
    by (simp add: req_no_device_def x)
  have c3: "\<not> truthy (req_no_device ''deviceId'')" by (simp add: req_no_device_def)
  have d1: "truthy (req_ids ''id'')" by (simp add: req_ids_def)
  have d2: "findIndex (\<lambda>b. Some (JStr (bc_id b)) = req_ids ''id'')
              (broadcastMessages st_broadcast) \<noteq> None"
    by (simp add: req_ids_def x)
  have d3: "truthy (req_ids ''deviceId'')" by (simp add: req_ids_def)
  have d4: "req_ids ''status'' \<noteq> Some (JStr ''received'')" by (simp add: req_ids_def)
  have e1: "truthy (req_received ''deviceId'')" by (simp add: req_received_def)
  have e2: "req_received ''status'' = Some (JStr ''received'')" by (simp add: req_received_def)
  have e3: "req_received(''broadcastId'' := req_received ''id'') = req_received"
    by (rule ext) (simp add: req_received_def)
  from receipt_bindings_related [of recv_dev1 st_broadcast] a1
  have A: "putBroadcast recv_dev1 st_broadcast =
     (Inl (ValidationError ''Broadcast ID is required''), st_broadcast)" by blast
  from receipt_bindings_related [of req_unknown st_broadcast] b1 b2
  have B: "putBroadcast req_unknown st_broadcast =
     (Inl (NotFound ''Broadcast not found''), st_broadcast)" by blast
  from receipt_bindings_related [of req_no_device st_broadcast] c1 c2 c3
  have C: "putBroadcast req_no_device st_broadcast =
     (Inr ''Broadcast updated successfully'', st_broadcast)" by blast
  from receipt_bindings_related [of req_ids st_broadcast] d1 d2 d4
  have D: "putBroadcast req_ids st_broadcast =
     (Inr ''Broadcast updated successfully'', st_broadcast)" by blast
  from receipt_bindings_related [of req_received st_broadcast] e1 e2
  have E: "snd (putBroadcast req_received st_broadcast) =
     snd (markBroadcastReceived (req_received(''broadcastId'' := req_received ''id'')) st_broadcast) \<and>
   http_status (fst (putBroadcast req_received st_broadcast)) =
     http_status (fst (markBroadcastReceived
        (req_received(''broadcastId'' := req_received ''id'')) st_broadcast))" by blast
  from a1 A b1 B c1 c3 C d3 d4 D e1 e2 e3 E show ?thesis by simp
qed

section \<open>Receipts in reachable states\<close>

lemma receipts_distinct_update:
  assumes "receipts_distinct s" and "i < length (broadcastMessages s)"
  shows "receipts_distinct
           (s\<lparr>broadcastMessages :=
                (broadcastMessages s)[i := push_received dev (broadcastMessages s ! i)]\<rparr>)"
proof -
  from assms have "distinct (receivedBy (broadcastMessages s ! i))"
    by (simp add: receipts_distinct_def list_all_length)
  then have "distinct (receivedBy (push_received dev (broadcastMessages s ! i)))"
    by (rule distinct_push_received)
  with assms(1) show ?thesis
    by (simp add: receipts_distinct_def list_all_update)
qed

lemma markBroadcastReceived_receipts_distinct:
  "receipts_distinct s \<Longrightarrow> receipts_distinct (snd (markBroadcastReceived b s))"
  by (auto simp: markBroadcastReceived_def Let_def receipts_distinct_update
      split: option.splits dest: findIndex_Some)

lemma putBroadcast_receipts_distinct:
  "receipts_distinct s \<Longrightarrow> receipts_distinct (snd (putBroadcast b s))"
  by (auto simp: putBroadcast_def Let_def receipts_distinct_update
      split: option.splits dest: findIndex_Some)

lemma sendBroadcast_receipts_distinct:
  "receipts_distinct s \<Longrightarrow> receipts_distinct (snd (sendBroadcast clk t m ty d s))"
  by (simp add: sendBroadcast_def Let_def receipts_distinct_def)

lemma registerDevice_broadcasts:
  "broadcastMessages (snd (registerDevice clk device s)) = broadcastMessages s"
  by (simp add: registerDevice_def Let_def split: option.splits)

lemma upsertUser_broadcasts:
  "broadcastMessages (snd (upsertUser clk u s)) = broadcastMessages s"
  by (simp add: upsertUser_def Let_def)

lemma createMessage_broadcasts:
  "broadcastMessages (snd (createMessage clk t b d s)) = broadcastMessages s"
  by (simp add: createMessage_def Let_def)

lemma sendMessage_broadcasts:
  "broadcastMessages (snd (sendMessage clk m s)) = broadcastMessages s"
  by (simp add: sendMessage_def Let_def split: option.splits)

lemma sendTargeted_broadcasts:
  "broadcastMessages (snd (sendTargeted clk m us s)) = broadcastMessages s"
  by (simp add: sendTargeted_def Let_def split: option.splits)

lemma markRead_broadcasts:
  "broadcastMessages (snd (markRead clk m d s)) = broadcastMessages s"
  by (simp add: markRead_def Let_def split: option.splits)

lemma handle_receipts_distinct:
  "receipts_distinct s \<Longrightarrow> receipts_distinct (handle r s)"
  by (cases r)
    (simp_all add: receipts_distinct_def [of "snd _"] registerDevice_broadcasts
      upsertUser_broadcasts createMessage_broadcasts sendMessage_broadcasts
      sendTargeted_broadcasts markRead_broadcasts,
     simp_all add: sendBroadcast_receipts_distinct markBroadcastReceived_receipts_distinct
      putBroadcast_receipts_distinct alias_eq patch_eq receipts_distinct_def [symmetric])

text \<open>
  In every state that a sequence of requests reaches from the empty collections, no
  broadcast has a device id twice in receivedBy.
\<close>

lemma run_receipts_distinct:
  "receipts_distinct s \<Longrightarrow> receipts_distinct (run rs s)"
  by (induction rs arbitrary: s) (simp_all add: handle_receipts_distinct)

lemma reachable_receipts_distinct: "receipts_distinct (run rs empty_db)"
  by (rule run_receipts_distinct) (simp add: receipts_distinct_def empty_db_def)

section \<open>Repeated and unknown receipts\<close>

text \<open>
  C7, as stated for every broadcast and device id, fails for a broadcast that is not
  the first of the collection to carry its id (two broadcasts sent in the same
  millisecond share their id): every call is answered with success and records the
  receipt in the first broadcast of that id, so the second one never holds the device
  id. It also fails for the empty device id, which is answered with ValidationError.
\<close>

theorem markBroadcastReceived_second_of_id_counterexample:
  "bc_id (broadcastMessages st_two_broadcasts ! 1) = ''1704153600000'' \<and>
   recv_dev1 ''broadcastId'' = Some (JStr ''1704153600000'') \<and>
   fst (markBroadcastReceived recv_dev1
          (markBroadcastReceived_times 2 recv_dev1 st_two_broadcasts)) =
     Inr ''Broadcast marked as received'' \<and>
   count_list
     (receivedBy (broadcastMessages
        (markBroadcastReceived_times 3 recv_dev1 st_two_broadcasts) ! 1))
     (recv_dev1 ''deviceId'') = 0 \<and>
   markBroadcastReceived recv_empty_device st_two_broadcasts =
     (Inl (ValidationError ''Broadcast ID and Device ID are required''), st_two_broadcasts)"
proof -
  have l: "length (broadcastMessages st_two_broadcasts) = 2"
    using arg_cong [OF st_two_broadcasts_ids, of length] by simp
  have id1: "bc_id (broadcastMessages st_two_broadcasts ! 1) = ''1704153600000''"
    using arg_cong [OF st_two_broadcasts_ids, of "\<lambda>xs. xs ! 1"] l by simp
  have id0: "bc_id (broadcastMessages st_two_broadcasts ! 0) = ''1704153600000''"
    using arg_cong [OF st_two_broadcasts_ids, of "\<lambda>xs. xs ! 0"] l by simp
  have r1: "receivedBy (broadcastMessages st_two_broadcasts ! 1) = []"
    using arg_cong [OF st_two_broadcasts_received, of "\<lambda>xs. xs ! 1"] l by simp
  have b: "truthy (recv_dev1 ''broadcastId'')" by (simp add: recv_dev1_def)
  have d: "truthy (recv_dev1 ''deviceId'')" by (simp add: recv_dev1_def)
  have bid: "recv_dev1 ''broadcastId'' = Some (JStr ''1704153600000'')"
    by (simp add: recv_dev1_def)
  from l obtain x y where xy: "broadcastMessages st_two_broadcasts = [x, y]"
    by (cases "broadcastMessages st_two_broadcasts" rule: list.exhaust)
       (auto simp: length_Suc_conv)
  have f: "findIndex (\<lambda>b. Some (JStr (bc_id b)) = recv_dev1 ''broadcastId'')
             (broadcastMessages st_two_broadcasts) = Some 0"
    using id0 by (simp add: xy bid)
  have s2: "markBroadcastReceived_times 2 recv_dev1 st_two_broadcasts =
      st_two_broadcasts\<lparr>broadcastMessages :=
        (broadcastMessages st_two_broadcasts)
          [0 := push_received (recv_dev1 ''deviceId'') (broadcastMessages st_two_broadcasts ! 0)]\<rparr>"
    unfolding numeral_2_eq_2
    by (rule markBroadcastReceived_times_Suc [of recv_dev1 st_two_broadcasts 0, OF b d f])
  have s3: "markBroadcastReceived_times 3 recv_dev1 st_two_broadcasts =
      st_two_broadcasts\<lparr>broadcastMessages :=
        (broadcastMessages st_two_broadcasts)
          [0 := push_received (recv_dev1 ''deviceId'') (broadcastMessages st_two_broadcasts ! 0)]\<rparr>"
    unfolding numeral_3_eq_3
    by (rule markBroadcastReceived_times_Suc [of recv_dev1 st_two_broadcasts 0, OF b d f])
  have f2: "findIndex (\<lambda>b. Some (JStr (bc_id b)) = recv_dev1 ''broadcastId'')
             (broadcastMessages (markBroadcastReceived_times 2 recv_dev1 st_two_broadcasts))
             = Some 0"
    using id0 by (simp add: s2 xy bid)
  have ok: "fst (markBroadcastReceived recv_dev1
          (markBroadcastReceived_times 2 recv_dev1 st_two_broadcasts)) =
     Inr ''Broadcast marked as received''"
    by (simp add: markBroadcastReceived_found [OF b d f2])
  have "receivedBy (broadcastMessages
        (markBroadcastReceived_times 3 recv_dev1 st_two_broadcasts) ! 1) = []"
    using r1 by (simp add: s3 xy)
  moreover have "markBroadcastReceived recv_empty_device st_two_broadcasts =
     (Inl (ValidationError ''Broadcast ID and Device ID are required''), st_two_broadcasts)"
    by (simp add: markBroadcastReceived_def recv_empty_device_def)
  ultimately show ?thesis using id1 bid ok by simp
qed

text \<open>
  C7, amended. In every state that requests reach from the empty collections (and in
  any state where the matched receivedBy has no duplicates), for the first broadcast of
  the collection that carries the requested id (the only one, when ids are unique) and
  a request that carries both ids:
  repeating markBroadcastReceived with the same broadcast id and device id any number
  of times (at least once) leaves its receivedBy without duplicates and holding the
  device id exactly once; every further call with the same ids answers success and
  changes nothing; every other broadcast is left as it was.
\<close>

theorem markBroadcastReceived_idempotent:
  assumes "truthy (receiveData ''broadcastId'')" and "truthy (receiveData ''deviceId'')"
    and "findIndex (\<lambda>b. Some (JStr (bc_id b)) = receiveData ''broadcastId'')
           (broadcastMessages s) = Some i"
    and "s = run rs empty_db \<or> distinct (receivedBy (broadcastMessages s ! i))"
    and "0 < n"
  shows "count_list
           (receivedBy (broadcastMessages (markBroadcastReceived_times n receiveData s) ! i))
           (receiveData ''deviceId'') = 1 \<and>
         distinct
           (receivedBy (broadcastMessages (markBroadcastReceived_times n receiveData s) ! i)) \<and>
         markBroadcastReceived receiveData (markBroadcastReceived_times n receiveData s) =
           (Inr ''Broadcast marked as received'', markBroadcastReceived_times n receiveData s) \<and>
         length (broadcastMessages (markBroadcastReceived_times n receiveData s)) =
           length (broadcastMessages s) \<and>
         (\<forall>j. j \<noteq> i \<longrightarrow>
            broadcastMessages (markBroadcastReceived_times n receiveData s) ! j =
              broadcastMessages s ! j)"
proof -
  let ?f = "\<lambda>t. snd (markBroadcastReceived receiveData t)"
  let ?dev = "receiveData ''deviceId''"
  define s' where "s' = markBroadcastReceived_times n receiveData s"
  from assms(5) obtain k where n: "n = Suc k" by (cases n) auto
  have fixd: "?f (?f s) = ?f s" by (rule markBroadcastReceived_twice [OF assms(1-3)])
  have s': "s' = ?f s"
    unfolding s'_def n markBroadcastReceived_times_def by (rule funpow_fixed [OF fixd])
  from findIndex_Some [OF assms(3)] have i: "i < length (broadcastMessages s)" by simp
  have d0: "distinct (receivedBy (broadcastMessages s ! i))"
  proof (cases "s = run rs empty_db")
    case True
    with reachable_receipts_distinct [of rs] i show ?thesis
      by (simp add: receipts_distinct_def list_all_length)
  next
    case False
    with assms(4) show ?thesis by simp
  qed
  have b': "broadcastMessages s' ! i = push_received ?dev (broadcastMessages s ! i)"
    by (simp add: s' markBroadcastReceived_found [OF assms(1-3)] i)
  have d: "distinct (receivedBy (broadcastMessages s' ! i))"
    unfolding b' by (rule distinct_push_received [OF d0])
  have "?dev \<in> set (receivedBy (broadcastMessages s' ! i))" unfolding b' by simp
  with d have c: "count_list (receivedBy (broadcastMessages s' ! i)) ?dev = 1"
    by (simp add: count_list_distinct)
  have again: "findIndex (\<lambda>b. Some (JStr (bc_id b)) = receiveData ''broadcastId'')
       (broadcastMessages s') = Some i"
    unfolding s' by (rule markBroadcastReceived_found_again [OF assms(1-3)])
  have "snd (markBroadcastReceived receiveData s') = s'"
    unfolding s' by (rule fixd)
  moreover have "fst (markBroadcastReceived receiveData s') = Inr ''Broadcast marked as received''"
    by (simp add: markBroadcastReceived_found [OF assms(1,2) again])
  ultimately have "markBroadcastReceived receiveData s' = (Inr ''Broadcast marked as received'', s')"
    by (metis prod.collapse)
  moreover have "length (broadcastMessages s') = length (broadcastMessages s)"
    by (simp add: s' markBroadcastReceived_found [OF assms(1-3)])
  moreover have "\<forall>j. j \<noteq> i \<longrightarrow> broadcastMessages s' ! j = broadcastMessages s ! j"
    by (simp add: s' markBroadcastReceived_found [OF assms(1-3)])
  ultimately show ?thesis using c d unfolding s'_def by simp
qed

theorem markBroadcastReceived_idempotent_witness:
  "truthy (recv_dev1 ''broadcastId'') \<and> truthy (recv_dev1 ''deviceId'') \<and>
   findIndex (\<lambda>b. Some (JStr (bc_id b)) = recv_dev1 ''broadcastId'')
     (broadcastMessages st_broadcast) = Some 0 \<and>
   st_broadcast =
     run [PostDevices clk_a dev_t1,
          PostBroadcastsSend clk_b (Some (JStr ''Hello'')) (Some (JStr ''World'')) None None]
       empty_db \<and>
   count_list
     (receivedBy (broadcastMessages (markBroadcastReceived_times 3 recv_dev1 st_broadcast) ! 0))
     (recv_dev1 ''deviceId'') = 1 \<and>
   markBroadcastReceived recv_dev1 (markBroadcastReceived_times 3 recv_dev1 st_broadcast) =
     (Inr ''Broadcast marked as received'',
      markBroadcastReceived_times 3 recv_dev1 st_broadcast)"
proof -
  have b: "truthy (recv_dev1 ''broadcastId'')" by (simp add: recv_dev1_def)
  have d: "truthy (recv_dev1 ''deviceId'')" by (simp add: recv_dev1_def)
  have f: "findIndex (\<lambda>b. Some (JStr (bc_id b)) = recv_dev1 ''broadcastId'')
             (broadcastMessages st_broadcast) = Some 0"
    by (simp add: recv_dev1_def st_broadcast_def clk_a_def clk_b_def dev_t1_def handler_defs)
  have r: "st_broadcast =
             run [PostDevices clk_a dev_t1,
                  PostBroadcastsSend clk_b (Some (JStr ''Hello'')) (Some (JStr ''World''))
                    None None] empty_db \<or>
           distinct (receivedBy (broadcastMessages st_broadcast ! 0))"
    by (simp add: st_broadcast_def)
  have n: "0 < (3::nat)" by simp
  have r': "st_broadcast =
             run [PostDevices clk_a dev_t1,
                  PostBroadcastsSend clk_b (Some (JStr ''Hello'')) (Some (JStr ''World''))
                    None None] empty_db"
    by (simp add: st_broadcast_def)
  from b d f r' markBroadcastReceived_idempotent [OF b d f r n] show ?thesis by blast
qed

text \<open>
  C6, as stated, fails: after a receipt for a device id that is not among the
  recipients of the broadcast, receivedBy is not within recipients.
\<close>

theorem receivedBy_not_within_recipients_counterexample:
  "bc_recipients (broadcastMessages st_broadcast ! 0) = [Some (JStr ''1704067200000'')] \<and>
   fst (markBroadcastReceived recv_ghost st_broadcast) = Inr ''Broadcast marked as received'' \<and>
   receivedBy (broadcastMessages (run [PostBroadcastsReceived recv_ghost] st_broadcast) ! 0)
     = [Some (JStr ''ghost'')] \<and>
   \<not> received_within (broadcastMessages (run [PostBroadcastsReceived recv_ghost] st_broadcast) ! 0)"
  by (simp add: received_within_def recv_ghost_def st_broadcast_def clk_a_def clk_b_def
      dev_t1_def handler_defs)

text \<open>
  C6, amended. An accepted markBroadcastReceived adds the request's device id to the
  receivedBy of the matched broadcast whether or not it is among the recipients, and
  leaves the recipients as they are: afterwards receivedBy is within recipients
  exactly when it was before and the device id is one of the recipients.
\<close>

theorem markBroadcastReceived_adds_any_device:
  assumes "truthy (receiveData ''broadcastId'')" and "truthy (receiveData ''deviceId'')"
    and "findIndex (\<lambda>b. Some (JStr (bc_id b)) = receiveData ''broadcastId'')
           (broadcastMessages s) = Some i"
  shows "fst (markBroadcastReceived receiveData s) = Inr ''Broadcast marked as received'' \<and>
         set (receivedBy (broadcastMessages (snd (markBroadcastReceived receiveData s)) ! i)) =
           insert (receiveData ''deviceId'') (set (receivedBy (broadcastMessages s ! i))) \<and>
         bc_recipients (broadcastMessages (snd (markBroadcastReceived receiveData s)) ! i) =
           bc_recipients (broadcastMessages s ! i) \<and>
         (received_within (broadcastMessages (snd (markBroadcastReceived receiveData s)) ! i) \<longleftrightarrow>
            received_within (broadcastMessages s ! i) \<and>
            receiveData ''deviceId'' \<in> set (bc_recipients (broadcastMessages s ! i)))"
proof -
  from findIndex_Some [OF assms(3)] have i: "i < length (broadcastMessages s)" by simp
  show ?thesis
    by (auto simp: markBroadcastReceived_found [OF assms] i received_within_def)
qed

theorem markBroadcastReceived_adds_any_device_witness:
  "truthy (recv_ghost ''broadcastId'') \<and> truthy (recv_ghost ''deviceId'') \<and>
   findIndex (\<lambda>b. Some (JStr (bc_id b)) = recv_ghost ''broadcastId'')
     (broadcastMessages st_broadcast) = Some 0 \<and>
   recv_ghost ''deviceId'' \<notin> set (bc_recipients (broadcastMessages st_broadcast ! 0)) \<and>
   set (receivedBy (broadcastMessages (snd (markBroadcastReceived recv_ghost st_broadcast)) ! 0)) =
     insert (recv_ghost ''deviceId'') (set (receivedBy (broadcastMessages st_broadcast ! 0)))"
proof -
  have b: "truthy (recv_ghost ''broadcastId'')" by (simp add: recv_ghost_def)
  have d: "truthy (recv_ghost ''deviceId'')" by (simp add: recv_ghost_def)
  have f: "findIndex (\<lambda>b. Some (JStr (bc_id b)) = recv_ghost ''broadcastId'')
             (broadcastMessages st_broadcast) = Some 0"
    by (simp add: recv_ghost_def st_broadcast_def clk_a_def clk_b_def dev_t1_def handler_defs)
  have g: "recv_ghost ''deviceId'' \<notin> set (bc_recipients (broadcastMessages st_broadcast ! 0))"
    by (simp add: recv_ghost_def st_broadcast_def clk_a_def clk_b_def dev_t1_def handler_defs)
  from b d f g markBroadcastReceived_adds_any_device [OF b d f] show ?thesis by blast
qed

section \<open>The sent record\<close>

text \<open>
  C5. The handler selects the recipients by
  \<open>targetUsers && targetUsers.length > 0\<close> and tags the record by
  \<open>targetUsers ? "specific" : "all"\<close>. With an empty \<open>targetUsers\<close> array the
  all-devices branch is taken and the record is tagged "specific".
\<close>

theorem sendTargeted_empty_array_tagged_specific:
  "select_devices (Some []) (devices st_device_and_message) = devices st_device_and_message \<and>
   fst (sendTargeted clk_b (Some (JStr ''1704067200000'')) (Some []) st_device_and_message)
     = Inr 1 \<and>
   targetType (last (sentMessages
     (snd (sendTargeted clk_b (Some (JStr ''1704067200000'')) (Some []) st_device_and_message))))
     = Some ''specific''"
  by (simp add: st_device_and_message_def clk_a_def clk_b_def dev_t1_def handler_defs)

text \<open>
  C1, as stated, fails when two pending messages carry one id (two messages created
  in the same millisecond): after a successful send of that id the message is still
  in pending, and after a second send two sent records carry the id.
\<close>

theorem sendMessage_duplicate_id_counterexample:
  "msg_id (pendingMessages st_two_same_id ! 0) = ''1704067200000'' \<and>
   http_status (fst (sendMessage clk_b (Some (JStr ''1704067200000'')) st_two_same_id)) = 200 \<and>
   pendingMessages st_two_same_id ! 0 \<in>
     set (pendingMessages (snd (sendMessage clk_b (Some (JStr ''1704067200000'')) st_two_same_id))) \<and>
   count_id ''1704067200000''
     (sentMessages (run [PostMessagesSend clk_b (Some (JStr ''1704067200000'')),
                         PostMessagesSend clk_b (Some (JStr ''1704067200000''))]
                     st_two_same_id)) = 2"
  by (simp add: st_two_same_id_def count_id_def clk_a_def clk_b_def dev_t1_def handler_defs)

lemma filter_splice1_findIndex:
  "length (filter P xs) = 1 \<Longrightarrow> findIndex P xs = Some i \<Longrightarrow> filter P (splice1 i xs) = []"
proof (induction xs arbitrary: i)
  case Nil
  then show ?case by simp
next
  case (Cons x xs)
  show ?case
  proof (cases "P x")
    case True
    with Cons.prems show ?thesis by (simp add: splice1_def)
  next
    case False
    with Cons.prems obtain k where k: "findIndex P xs = Some k" "i = Suc k" by auto
    from Cons.prems(1) False have "length (filter P xs) = 1" by simp
    from Cons.IH [OF this k(1)] False k(2) show ?thesis by (simp add: splice1_def)
  qed
qed

lemma registerDevice_sentMessages:
  "sentMessages (snd (registerDevice clk device s)) = sentMessages s"
  by (simp add: registerDevice_def Let_def split: option.splits)

lemma sendMessage_success:
  assumes "sendMessage clk messageId s = (Inr r, s')"
  obtains i where
    "findIndex (\<lambda>m. Some (JStr (msg_id m)) = messageId) (pendingMessages s) = Some i"
    "r = to_sent clk (pendingMessages s ! i) None (devices s)"
    "s' = s\<lparr>pendingMessages := splice1 i (pendingMessages s),
            sentMessages := sentMessages s @ [r]\<rparr>"
  using assms
  by (auto simp: sendMessage_def Let_def split: if_splits option.splits)

text \<open>
  C1, amended. For a pending message m whose id no other pending message and no sent
  record carries, a successful sendMessage of m's id removes m from pending and leaves
  exactly one sent record with that id: the answered record, with status "sent" and one
  recipient per device registered at that moment, in order, each with status "sent" and
  no read time. A device registration after the send does not change the sent records.
\<close>

theorem sendMessage_moves_message:
  assumes "m \<in> set (pendingMessages s)"
    and "count_id (msg_id m) (pendingMessages s) = 1"
    and "count_id (msg_id m) (sentMessages s) = 0"
    and "sendMessage clk (Some (JStr (msg_id m))) s = (Inr r, s')"
  shows "m \<notin> set (pendingMessages s') \<and>
         count_id (msg_id m) (sentMessages s') = 1 \<and>
         r \<in> set (sentMessages s') \<and> msg_id r = msg_id m \<and> status r = ''sent'' \<and>
         length (recipients r) = length (devices s) \<and>
         map deviceId (recipients r) = map (\<lambda>d. d ''id'') (devices s) \<and>
         (\<forall>x\<in>set (recipients r). rstatus x = ''sent'' \<and> readAt x = None) \<and>
         (\<forall>clk' device. sentMessages (snd (registerDevice clk' device s')) = sentMessages s')"
proof -
  let ?P = "\<lambda>x::message. Some (JStr (msg_id x)) = Some (JStr (msg_id m))"
  from sendMessage_success [OF assms(4)] obtain i where
    i: "findIndex ?P (pendingMessages s) = Some i"
    and r: "r = to_sent clk (pendingMessages s ! i) None (devices s)"
    and s': "s' = s\<lparr>pendingMessages := splice1 i (pendingMessages s),
            sentMessages := sentMessages s @ [r]\<rparr>"
    by blast
  have P: "?P = (\<lambda>x. msg_id x = msg_id m)" by auto
  from assms(2) have "length (filter ?P (pendingMessages s)) = 1"
    by (simp add: count_id_def)
  from filter_splice1_findIndex [OF this i]
  have "filter ?P (pendingMessages s') = []" by (simp add: s')
  then have 1: "m \<notin> set (pendingMessages s')"
    by (auto simp: filter_empty_conv)
  from findIndex_Some [OF i] have id: "msg_id (pendingMessages s ! i) = msg_id m" by simp
  then have idr: "msg_id r = msg_id m" by (simp add: r to_sent_def)
  from assms(3) idr have 2: "count_id (msg_id m) (sentMessages s') = 1"
    by (simp add: s' count_id_def)
  have 3: "r \<in> set (sentMessages s')" by (simp add: s')
  have 4: "status r = ''sent''" by (simp add: r to_sent_def)
  have 5: "length (recipients r) = length (devices s)" by (simp add: r to_sent_def)
  have 6: "map deviceId (recipients r) = map (\<lambda>d. d ''id'') (devices s)"
    by (simp add: r to_sent_def to_recipient_def)
  have 7: "\<forall>x\<in>set (recipients r). rstatus x = ''sent'' \<and> readAt x = None"
    by (auto simp: r to_sent_def to_recipient_def)
  from 1 2 3 idr 4 5 6 7 registerDevice_sentMessages show ?thesis by blast
qed

lemma st_device_and_message_pending:
  "pendingMessages st_device_and_message =
     [\<lparr>msg_id = ''1704067200000'', title = JStr ''A'', body = JStr ''B'', data = Map.empty,
       createdAt = ''2024-01-01T00:00:00.000Z'', status = ''pending''\<rparr>]"
  by (simp add: st_device_and_message_def clk_a_def dev_t1_def handler_defs)

lemma st_device_and_message_sent: "sentMessages st_device_and_message = []"
  by (simp add: st_device_and_message_def clk_a_def dev_t1_def handler_defs)

lemma st_device_and_message_devices: "length (devices st_device_and_message) = 1"
  by (simp add: st_device_and_message_def clk_a_def dev_t1_def handler_defs)

theorem sendMessage_moves_message_witness:
  "pendingMessages st_device_and_message ! 0 \<in> set (pendingMessages st_device_and_message) \<and>
   count_id (msg_id (pendingMessages st_device_and_message ! 0))
     (pendingMessages st_device_and_message) = 1 \<and>
   count_id (msg_id (pendingMessages st_device_and_message ! 0))
     (sentMessages st_device_and_message) = 0 \<and>
   http_status (fst (sendMessage clk_b
     (Some (JStr (msg_id (pendingMessages st_device_and_message ! 0))))
     st_device_and_message)) = 200 \<and>
   pendingMessages st_device_and_message ! 0 \<notin>
     set (pendingMessages (snd (sendMessage clk_b
       (Some (JStr (msg_id (pendingMessages st_device_and_message ! 0))))
       st_device_and_message))) \<and>
   count_id (msg_id (pendingMessages st_device_and_message ! 0))
     (sentMessages (snd (sendMessage clk_b
       (Some (JStr (msg_id (pendingMessages st_device_and_message ! 0))))
       st_device_and_message))) = 1"
proof -
  let ?s = st_device_and_message
  let ?m = "pendingMessages ?s ! 0"
  have a: "?m \<in> set (pendingMessages ?s)"
    by (simp add: st_device_and_message_pending)
  have b: "count_id (msg_id ?m) (pendingMessages ?s) = 1"
    by (simp add: st_device_and_message_pending count_id_def)
  have c: "count_id (msg_id ?m) (sentMessages ?s) = 0"
    by (simp add: st_device_and_message_sent count_id_def)
  have "\<exists>r s'. sendMessage clk_b (Some (JStr (msg_id ?m))) ?s = (Inr r, s')"
    by (simp add: sendMessage_def st_device_and_message_pending
        st_device_and_message_devices Let_def)
  then obtain r s' where d: "sendMessage clk_b (Some (JStr (msg_id ?m))) ?s = (Inr r, s')"
    by blast
  from sendMessage_moves_message [OF a b c d] a b c d show ?thesis by simp
qed

section \<open>Token uniqueness\<close>

text \<open>
  C2, as stated, fails: upsertUser with a push token writes that token into every
  device of the user, so two devices of one user end with the same token; and for a
  user without devices it appends a device without looking the token up, so a token
  that a device has is carried twice.
\<close>

theorem upsertUser_duplicates_token_counterexample:
  "token_unique (devices st_two_devices) \<and>
   map (\<lambda>d. d ''token'') (devices (run [PostUsers clk_b user_u1_t3] st_two_devices)) =
     [Some (JStr ''t3''), Some (JStr ''t3'')] \<and>
   \<not> token_unique (devices (run [PostUsers clk_b user_u1_t3] st_two_devices)) \<and>
   token_unique (devices st_one_device) \<and>
   map (\<lambda>d. d ''token'') (devices (run [PostUsers clk_b user_u2_t1] st_one_device)) =
     [Some (JStr ''t1''), Some (JStr ''t1'')] \<and>
   \<not> token_unique (devices (run [PostUsers clk_b user_u2_t1] st_one_device))"
  by (simp add: token_unique_def st_two_devices_def reqs_two_devices_def st_one_device_def
      user_u1_t3_def user_u2_t1_def clk_a_def clk_b_def dev_t1_def dev_t2_def handler_defs)

lemma new_device_token:
  "truthy (device ''token'') \<Longrightarrow> new_device clk device ''token'' = device ''token''"
  by (cases "device ''token''") (simp_all add: new_device_def map_add_def)

lemma assign_device_token:
  "truthy (device ''token'') \<Longrightarrow> assign_device clk device d ''token'' = device ''token''"
  by (cases "device ''token''") (simp_all add: assign_device_def map_add_def)

lemma assign_device_lastSeen:
  "assign_device clk device d ''lastSeen'' = Some (JStr (iso clk))"
  by (simp add: assign_device_def map_add_def)

lemma registerDevice_known:
  assumes "truthy (device ''token'')"
    and "findIndex (\<lambda>d. d ''token'' = device ''token'') (devices s) = Some i"
  shows "devices (snd (registerDevice clk device s)) =
           (devices s)[i := assign_device clk device (devices s ! i)]"
  using assms by (simp add: registerDevice_def Let_def)

lemma registerDevice_new:
  assumes "truthy (device ''token'')"
    and "findIndex (\<lambda>d. d ''token'' = device ''token'') (devices s) = None"
  shows "devices (snd (registerDevice clk device s)) = devices s @ [new_device clk device]"
  using assms by (simp add: registerDevice_def Let_def)

lemma registerDevice_rejected:
  "\<not> truthy (device ''token'') \<Longrightarrow> snd (registerDevice clk device s) = s"
  by (simp add: registerDevice_def)

lemma registerDevice_known_tokens:
  assumes "truthy (device ''token'')"
    and "findIndex (\<lambda>d. d ''token'' = device ''token'') (devices s) = Some i"
  shows "map (\<lambda>d. d ''token'') (devices (snd (registerDevice clk device s))) =
           map (\<lambda>d. d ''token'') (devices s)"
proof -
  from findIndex_Some [OF assms(2)]
  have i: "i < length (devices s)" "(devices s ! i) ''token'' = device ''token''" by auto
  have "map (\<lambda>d. d ''token'') ((devices s)[i := assign_device clk device (devices s ! i)]) =
        (map (\<lambda>d. d ''token'') (devices s))[i := device ''token'']"
    by (simp add: map_update assign_device_token [of device, OF assms(1)])
  also have "\<dots> = map (\<lambda>d. d ''token'') (devices s)"
    using i by (simp add: list_update_same_conv)
  finally show ?thesis by (simp add: registerDevice_known [of device s i, OF assms])
qed

lemma registerDevice_token_unique:
  assumes "token_unique (devices s)"
  shows "token_unique (devices (snd (registerDevice clk device s)))"
proof (cases "truthy (device ''token'')")
  case False
  with assms show ?thesis by (simp add: registerDevice_rejected)
next
  case True
  show ?thesis
  proof (cases "findIndex (\<lambda>d. d ''token'' = device ''token'') (devices s)")
    case None
    then have "device ''token'' \<notin> set (map (\<lambda>d. d ''token'') (devices s))"
      by (auto simp: findIndex_None)
    with assms show ?thesis
      by (simp add: token_unique_def registerDevice_new [of device s, OF True None]
          new_device_token [of device, OF True])
  next
    case (Some i)
    with assms show ?thesis
      by (simp add: token_unique_def registerDevice_known_tokens [of device s i, OF True Some])
  qed
qed

lemma createMessage_devices: "devices (snd (createMessage clk t b d s)) = devices s"
  by (simp add: createMessage_def Let_def)

lemma sendMessage_devices: "devices (snd (sendMessage clk m s)) = devices s"
  by (simp add: sendMessage_def Let_def split: option.splits)

lemma sendTargeted_devices: "devices (snd (sendTargeted clk m us s)) = devices s"
  by (simp add: sendTargeted_def Let_def split: option.splits)

lemma markRead_devices: "devices (snd (markRead clk m d s)) = devices s"
  by (simp add: markRead_def Let_def split: option.splits)

lemma sendBroadcast_devices: "devices (snd (sendBroadcast clk t m ty d s)) = devices s"
  by (simp add: sendBroadcast_def Let_def)

lemma markBroadcastReceived_devices: "devices (snd (markBroadcastReceived b s)) = devices s"
  by (simp add: markBroadcastReceived_def Let_def split: option.splits)

lemma aliasBroadcastReceived_devices: "devices (snd (aliasBroadcastReceived b s)) = devices s"
  by (simp add: aliasBroadcastReceived_def Let_def split: option.splits)

lemma putBroadcast_devices: "devices (snd (putBroadcast b s)) = devices s"
  by (simp add: putBroadcast_def Let_def split: option.splits)

lemma patchBroadcast_devices: "devices (snd (patchBroadcast b s)) = devices s"
  by (simp add: patchBroadcast_def Let_def split: option.splits)

lemma handle_token_unique:
  "\<not> is_PostUsers r \<Longrightarrow> token_unique (devices s) \<Longrightarrow> token_unique (devices (handle r s))"
  by (cases r)
    (simp_all add: registerDevice_token_unique createMessage_devices sendMessage_devices
      sendTargeted_devices markRead_devices sendBroadcast_devices
      markBroadcastReceived_devices aliasBroadcastReceived_devices putBroadcast_devices
      patchBroadcast_devices)

lemma update_user_device_token:
  "truthy (userData ''token'') \<Longrightarrow>
   update_user_device clk userData d ''token'' = userData ''token''"
  by (simp add: update_user_device_def Let_def)

lemma update_user_device_token_kept:
  "\<not> truthy (userData ''token'') \<Longrightarrow> update_user_device clk userData d ''token'' = d ''token''"
  by (simp add: update_user_device_def Let_def)

lemma placeholder_device_token:
  "placeholder_device clk userData ''token'' = userData ''token''"
  by (simp add: placeholder_device_def)

lemma distinct_retoken:
  assumes "distinct (map f xs)"
  shows "distinct (map (\<lambda>x. if P x then t else f x) xs) \<longleftrightarrow>
           length (filter P xs) \<le> 1 \<and>
           (filter P xs \<noteq> [] \<longrightarrow> t \<notin> f ` {x \<in> set xs. \<not> P x})"
  using assms
proof (induction xs)
  case Nil
  then show ?case by simp
next
  case (Cons x xs)
  from Cons.prems have d: "distinct (map f xs)" and n: "f x \<notin> f ` set xs" by simp_all
  note IH = Cons.IH [OF d]
  show ?case
  proof (cases "P x")
    case True
    have "t \<notin> (\<lambda>x. if P x then t else f x) ` set xs \<longleftrightarrow>
            filter P xs = [] \<and> t \<notin> f ` {x \<in> set xs. \<not> P x}"
      by (auto simp: filter_empty_conv image_iff)
    with True IH show ?thesis by (auto simp: filter_empty_conv)
  next
    case False
    have "f x \<notin> (\<lambda>x. if P x then t else f x) ` set xs \<longleftrightarrow> filter P xs = [] \<or> f x \<noteq> t"
      using n by (auto simp: filter_empty_conv image_iff)
    with False IH show ?thesis by (auto simp: filter_empty_conv)
  qed
qed

lemma upsertUser_rejected:
  "\<not> truthy (userData ''id'') \<Longrightarrow> snd (upsertUser clk userData s) = s"
  by (simp add: upsertUser_def)

lemma upsertUser_placeholder:
  assumes "truthy (userData ''id'')" and "truthy (userData ''token'')"
    and "filter (\<lambda>d. d ''userId'' = userData ''id'') (devices s) = []"
  shows "devices (snd (upsertUser clk userData s)) =
           devices s @ [placeholder_device clk userData]"
  using assms by (simp add: upsertUser_def Let_def)

lemma upsertUser_update:
  assumes "truthy (userData ''id'')"
    and "filter (\<lambda>d. d ''userId'' = userData ''id'') (devices s) \<noteq> []"
  shows "devices (snd (upsertUser clk userData s)) =
           map (\<lambda>d. if d ''userId'' = userData ''id''
                    then update_user_device clk userData d else d) (devices s)"
  using assms by (simp add: upsertUser_def Let_def)

lemma upsertUser_nothing:
  assumes "\<not> truthy (userData ''token'')"
    and "filter (\<lambda>d. d ''userId'' = userData ''id'') (devices s) = []"
  shows "snd (upsertUser clk userData s) = s"
  using assms by (simp add: upsertUser_def Let_def)

lemma upsertUser_token_unique_iff:
  assumes "token_unique (devices s)"
  shows "token_unique (devices (snd (upsertUser clk userData s))) \<longleftrightarrow>
           upsert_keeps_tokens userData (devices s)"
proof (cases "truthy (userData ''id'')")
  case False
  with assms show ?thesis by (simp add: upsertUser_rejected upsert_keeps_tokens_def)
next
  case id: True
  let ?P = "\<lambda>d::obj. d ''userId'' = userData ''id''"
  let ?tok = "\<lambda>d::obj. d ''token''"
  show ?thesis
  proof (cases "truthy (userData ''token'')")
    case False
    show ?thesis
    proof (cases "filter ?P (devices s) = []")
      case True
      with assms False show ?thesis
        by (simp add: upsertUser_nothing [of userData s] upsert_keeps_tokens_def)
    next
      case ne: False
      have "map ?tok (devices (snd (upsertUser clk userData s))) = map ?tok (devices s)"
        by (simp add: upsertUser_update [of userData s, OF id ne]
            update_user_device_token_kept [of userData, OF False] o_def)
      with assms False show ?thesis by (simp add: token_unique_def upsert_keeps_tokens_def)
    qed
  next
    case tk: True
    show ?thesis
    proof (cases "filter ?P (devices s) = []")
      case True
      then have "filter (\<lambda>d. d ''userId'' \<noteq> userData ''id'') (devices s) = devices s"
        by (simp add: filter_empty_conv filter_id_conv)
      with assms id tk True show ?thesis
        by (simp add: token_unique_def upsert_keeps_tokens_def
            upsertUser_placeholder [of userData s, OF id tk True] placeholder_device_token)
    next
      case ne: False
      have "map ?tok (devices (snd (upsertUser clk userData s))) =
              map (\<lambda>d. if ?P d then userData ''token'' else ?tok d) (devices s)"
        by (simp add: upsertUser_update [of userData s, OF id ne]
            update_user_device_token [of userData, OF tk] o_def if_distrib cong: if_cong)
      moreover have "?tok ` {x \<in> set (devices s). \<not> ?P x} =
          set (map ?tok (filter (\<lambda>d. d ''userId'' \<noteq> userData ''id'') (devices s)))"
        by auto
      ultimately show ?thesis
        using distinct_retoken [of ?tok "devices s" ?P "userData ''token''"] assms id tk ne
        by (simp add: token_unique_def upsert_keeps_tokens_def)
    qed
  qed
qed

lemma handle_token_unique_iff:
  assumes "token_unique (devices s)"
  shows "token_unique (devices (handle r s)) \<longleftrightarrow> keeps_tokens r s"
proof (cases "is_PostUsers r")
  case True
  then obtain clk userData where "r = PostUsers clk userData" by (cases r) auto
  with assms show ?thesis by (simp add: upsertUser_token_unique_iff)
next
  case False
  then have "keeps_tokens r s" by (cases r) auto
  with handle_token_unique [OF False assms] show ?thesis by simp
qed

lemma run_token_safe:
  "token_unique (devices s) \<Longrightarrow> token_safe rs s \<Longrightarrow> token_unique (devices (run rs s))"
  by (induction rs arbitrary: s) (simp_all add: handle_token_unique_iff)

text \<open>
  C2, amended. From a state with at most one device record per push token, a request
  leaves at most one record per token exactly when it is not an upsertUser that carries
  a user id and a push token, or that user has at most one device and no device of
  another user carries the token (for a user without devices: no device carries it).
  So every sequence of such requests, in particular every sequence in which no
  upsertUser carries a token, reaches only states with at most one record per token.
  Registering a known token again updates the matched record in place, appends nothing
  and changes no token.
\<close>

theorem token_unique_kept:
  assumes "token_unique (devices s)"
  shows "(token_unique (devices (handle r s)) \<longleftrightarrow> keeps_tokens r s) \<and>
         (token_safe rs s \<longrightarrow> token_unique (devices (run rs s))) \<and>
         (\<forall>clk device i.
            truthy (device ''token'') \<and>
            findIndex (\<lambda>d. d ''token'' = device ''token'') (devices s) = Some i \<longrightarrow>
              devices (snd (registerDevice clk device s)) =
                (devices s)[i := assign_device clk device (devices s ! i)] \<and>
              length (devices (snd (registerDevice clk device s))) = length (devices s) \<and>
              map (\<lambda>d. d ''token'') (devices (snd (registerDevice clk device s))) =
                map (\<lambda>d. d ''token'') (devices s))"
proof (intro conjI allI impI)
  show "token_unique (devices (handle r s)) \<longleftrightarrow> keeps_tokens r s"
    by (rule handle_token_unique_iff [OF assms])
  show "token_unique (devices (run rs s))" if "token_safe rs s"
    by (rule run_token_safe [OF assms that])
next
  fix clk device i
  assume a: "truthy (device ''token'') \<and>
             findIndex (\<lambda>d. d ''token'' = device ''token'') (devices s) = Some i"
  then have t: "truthy (device ''token'')"
    and f: "findIndex (\<lambda>d. d ''token'' = device ''token'') (devices s) = Some i" by simp_all
  show k: "devices (snd (registerDevice clk device s)) =
          (devices s)[i := assign_device clk device (devices s ! i)]"
    by (rule registerDevice_known [of device s i, OF t f])
  show "length (devices (snd (registerDevice clk device s))) = length (devices s)"
    by (simp add: k)
  show "map (\<lambda>d. d ''token'') (devices (snd (registerDevice clk device s))) =
          map (\<lambda>d. d ''token'') (devices s)"
    by (rule registerDevice_known_tokens [of device s i, OF t f])
qed

lemma st_two_devices_tokens:
  "map (\<lambda>d. d ''token'') (devices st_two_devices) = [Some (JStr ''t1''), Some (JStr ''t2'')]"
  by (simp add: st_two_devices_def reqs_two_devices_def clk_a_def dev_t1_def dev_t2_def
      handler_defs)

lemma st_two_devices_users:
  "map (\<lambda>d. d ''userId'') (devices st_two_devices) = [Some (JStr ''u1''), Some (JStr ''u1'')]"
  by (simp add: st_two_devices_def reqs_two_devices_def clk_a_def dev_t1_def dev_t2_def
      handler_defs)

theorem token_unique_kept_witness:
  "token_unique (devices st_two_devices) \<and>
   keeps_tokens (PostUsers clk_b user_u9) st_two_devices \<and>
   token_unique (devices (handle (PostUsers clk_b user_u9) st_two_devices)) \<and>
   \<not> keeps_tokens (PostUsers clk_b user_u1_t3) st_two_devices \<and>
   \<not> token_unique (devices (handle (PostUsers clk_b user_u1_t3) st_two_devices)) \<and>
   token_safe [PostUsers clk_b user_u9] st_two_devices \<and>
   token_unique (devices (run [PostUsers clk_b user_u9] st_two_devices)) \<and>
   truthy (dev_t1 ''token'') \<and>
   findIndex (\<lambda>d. d ''token'' = dev_t1 ''token'') (devices st_two_devices) = Some 0 \<and>
   length (devices (snd (registerDevice clk_b dev_t1 st_two_devices))) =
     length (devices st_two_devices)"
proof -
  obtain x y where xy: "devices st_two_devices = [x, y]"
    and tx: "x ''token'' = Some (JStr ''t1'')" and ty: "y ''token'' = Some (JStr ''t2'')"
    using st_two_devices_tokens by (auto simp: map_eq_Cons_conv)
  from st_two_devices_users xy
  have ux: "x ''userId'' = Some (JStr ''u1'')" and uy: "y ''userId'' = Some (JStr ''u1'')"
    by simp_all
  have u: "token_unique (devices st_two_devices)"
    by (simp add: token_unique_def st_two_devices_tokens)
  have k9: "keeps_tokens (PostUsers clk_b user_u9) st_two_devices"
    by (simp add: upsert_keeps_tokens_def user_u9_def)
  have k3: "\<not> keeps_tokens (PostUsers clk_b user_u1_t3) st_two_devices"
    by (simp add: upsert_keeps_tokens_def user_u1_t3_def xy ux uy)
  have s9: "token_safe [PostUsers clk_b user_u9] st_two_devices"
    using k9 by simp
  have t: "truthy (dev_t1 ''token'')" by (simp add: dev_t1_def)
  have f: "findIndex (\<lambda>d. d ''token'' = dev_t1 ''token'') (devices st_two_devices) = Some 0"
    by (simp add: xy tx dev_t1_def)
  from token_unique_kept [OF u, of "PostUsers clk_b user_u9" "[PostUsers clk_b user_u9]"] k9 s9 t f
  have A: "token_unique (devices (handle (PostUsers clk_b user_u9) st_two_devices)) \<and>
           token_unique (devices (run [PostUsers clk_b user_u9] st_two_devices)) \<and>
           length (devices (snd (registerDevice clk_b dev_t1 st_two_devices))) =
             length (devices st_two_devices)"
    by blast
  from token_unique_kept [OF u, of "PostUsers clk_b user_u1_t3" "[]"] k3
  have B: "\<not> token_unique (devices (handle (PostUsers clk_b user_u1_t3) st_two_devices))"
    by blast
  from u k9 k3 s9 t f A B show ?thesis by blast
qed

section \<open>Registration count and last-seen time\<close>

text \<open>
  C9, as stated, fails: a first registration may bring its own lastSeen, which the new
  record keeps; the next registration of the token stamps the clock reading, which is
  earlier, although the clock has not gone back. (It also fails when the clock itself
  goes back between two registrations.)
\<close>

theorem registerDevice_lastSeen_counterexample:
  "str_le (iso clk_a) (iso clk_b) \<and>
   length (devices (run [PostDevices clk_a dev_t1_future] empty_db)) = 1 \<and>
   (devices (run [PostDevices clk_a dev_t1_future] empty_db) ! 0) ''lastSeen'' =
     Some (JStr ''2999-01-01T00:00:00.000Z'') \<and>
   length (devices (run [PostDevices clk_a dev_t1_future, PostDevices clk_b dev_t1] empty_db)) = 1 \<and>
   (devices (run [PostDevices clk_a dev_t1_future, PostDevices clk_b dev_t1] empty_db) ! 0)
     ''lastSeen'' = Some (JStr ''2024-01-02T00:00:00.000Z'') \<and>
   \<not> later_or_equal
     ((devices (run [PostDevices clk_a dev_t1_future, PostDevices clk_b dev_t1] empty_db) ! 0)
        ''lastSeen'')
     ((devices (run [PostDevices clk_a dev_t1_future] empty_db) ! 0) ''lastSeen'') \<and>
   \<not> later_or_equal
     ((devices (run [PostDevices clk_b dev_t1, PostDevices clk_a dev_t1] empty_db) ! 0)
        ''lastSeen'')
     ((devices (run [PostDevices clk_b dev_t1] empty_db) ! 0) ''lastSeen'')"
  by (simp add: dev_t1_future_def dev_t1_def clk_a_def clk_b_def handler_defs)

lemma findIndex_append_new:
  "findIndex P xs = None \<Longrightarrow> P y \<Longrightarrow> findIndex P (xs @ [y]) = Some (length xs)"
  by (induction xs) (auto split: if_splits)

lemma new_device_lastSeen:
  "device ''lastSeen'' = None \<Longrightarrow> new_device clk device ''lastSeen'' = Some (JStr (iso clk))"
  by (simp add: new_device_def map_add_def)

lemma str_le_refl: "str_le a a"
  by (induction a) simp_all

lemma str_le_trans: "str_le a b \<Longrightarrow> str_le b c \<Longrightarrow> str_le a c"
proof (induction a b arbitrary: c rule: str_le.induct)
  case (1 ys)
  then show ?case by simp
next
  case (2 x xs)
  then show ?case by simp
next
  case (3 x xs y ys)
  then show ?case by (cases c) auto
qed

lemma later_or_equal_mono:
  "later_or_equal (Some (JStr c)) v \<Longrightarrow> str_le c c' \<Longrightarrow> later_or_equal (Some (JStr c')) v"
proof (cases v)
  case None
  assume "later_or_equal (Some (JStr c)) v"
  with None show ?thesis by simp
next
  case (Some w)
  assume a: "later_or_equal (Some (JStr c)) v" and b: "str_le c c'"
  from a Some obtain t where "w = JStr t" by (cases w) auto
  with a b Some show ?thesis by (auto intro: str_le_trans)
qed

lemma stamped_mono: "stamped c devs \<Longrightarrow> str_le c c' \<Longrightarrow> stamped c' devs"
  by (auto simp: stamped_def list_all_iff intro: later_or_equal_mono)

lemma stamped_append:
  "stamped c devs \<Longrightarrow> d ''lastSeen'' = Some (JStr c) \<Longrightarrow> stamped c (devs @ [d])"
  by (simp add: stamped_def str_le_refl)

lemma update_user_device_lastSeen:
  "update_user_device clk userData d ''lastSeen'' = Some (JStr (iso clk))"
  by (simp add: update_user_device_def Let_def)

lemma placeholder_device_lastSeen:
  "placeholder_device clk userData ''lastSeen'' = Some (JStr (iso clk))"
  by (simp add: placeholder_device_def)

lemma registerDevice_stamped:
  assumes "stamped c (devices s)" and "str_le c (iso clk)" and "device ''lastSeen'' = None"
  shows "stamped (iso clk) (devices (snd (registerDevice clk device s)))"
proof -
  note m = stamped_mono [OF assms(1,2)]
  show ?thesis
  proof (cases "truthy (device ''token'')")
    case False
    with m show ?thesis by (simp add: registerDevice_rejected)
  next
    case True
    show ?thesis
    proof (cases "findIndex (\<lambda>d. d ''token'' = device ''token'') (devices s)")
      case None
      have nl: "new_device clk device ''lastSeen'' = Some (JStr (iso clk))"
        using assms(3) by (simp add: new_device_lastSeen)
      from stamped_append [of "iso clk" "devices s" "new_device clk device", OF m nl]
      show ?thesis by (simp add: registerDevice_new [of device s, OF True None])
    next
      case (Some i)
      have "later_or_equal (Some (JStr (iso clk)))
              (assign_device clk device (devices s ! i) ''lastSeen'')"
        by (simp add: assign_device_lastSeen str_le_refl)
      with m show ?thesis
        by (simp add: registerDevice_known [of device s i, OF True Some] stamped_def
            list_all_update)
    qed
  qed
qed

lemma upsertUser_stamped:
  assumes "stamped c (devices s)" and "str_le c (iso clk)"
  shows "stamped (iso clk) (devices (snd (upsertUser clk userData s)))"
proof -
  note m = stamped_mono [OF assms]
  show ?thesis
  proof (cases "truthy (userData ''id'')")
    case False
    with m show ?thesis by (simp add: upsertUser_rejected)
  next
    case id: True
    show ?thesis
    proof (cases "filter (\<lambda>d. d ''userId'' = userData ''id'') (devices s) = []")
      case True
      show ?thesis
      proof (cases "truthy (userData ''token'')")
        case False
        with m True show ?thesis by (simp add: upsertUser_nothing [of userData s])
      next
        case tk: True
        have pl: "placeholder_device clk userData ''lastSeen'' = Some (JStr (iso clk))"
          by (rule placeholder_device_lastSeen)
        from stamped_append [of "iso clk" "devices s" "placeholder_device clk userData", OF m pl]
        show ?thesis by (simp add: upsertUser_placeholder [of userData s, OF id tk True])
      qed
    next
      case False
      from m show ?thesis
        by (auto simp: upsertUser_update [of userData s, OF id False] stamped_def
            list_all_iff update_user_device_lastSeen str_le_refl)
    qed
  qed
qed

lemma handle_devices_other:
  "\<not> is_PostUsers r \<Longrightarrow> (\<forall>clk device. r \<noteq> PostDevices clk device) \<Longrightarrow>
   devices (handle r s) = devices s"
  by (cases r)
    (simp_all add: createMessage_devices sendMessage_devices sendTargeted_devices
      markRead_devices sendBroadcast_devices markBroadcastReceived_devices
      aliasBroadcastReceived_devices putBroadcast_devices patchBroadcast_devices)

lemma handle_stamped:
  assumes "stamped c (devices s)" and "\<not> supplies_lastSeen r"
    and "case request_clock r of None \<Rightarrow> True | Some clk \<Rightarrow> str_le c (iso clk)"
  shows "stamped (case request_clock r of None \<Rightarrow> c | Some clk \<Rightarrow> iso clk)
           (devices (handle r s))"
proof (cases r)
  case (PostDevices clk device)
  with assms show ?thesis by (simp add: registerDevice_stamped)
next
  case (PostUsers clk userData)
  with assms show ?thesis by (simp add: upsertUser_stamped)
next
  case (PostMessages clk t b d)
  with assms show ?thesis by (simp add: createMessage_devices stamped_mono)
next
  case (PostMessagesSend clk m)
  with assms show ?thesis by (simp add: sendMessage_devices stamped_mono)
next
  case (PostMessagesSendTargeted clk m us)
  with assms show ?thesis by (simp add: sendTargeted_devices stamped_mono)
next
  case (PostMessagesRead clk m d)
  with assms show ?thesis by (simp add: markRead_devices stamped_mono)
next
  case (PostBroadcastsSend clk t m ty d)
  with assms show ?thesis by (simp add: sendBroadcast_devices stamped_mono)
next
  case (PostBroadcastsReceived b)
  with assms show ?thesis by (simp add: markBroadcastReceived_devices)
next
  case (PostMessagesBroadcastsReceived b)
  with assms show ?thesis by (simp add: aliasBroadcastReceived_devices)
next
  case (PutBroadcasts b)
  with assms show ?thesis by (simp add: putBroadcast_devices)
next
  case (PatchBroadcasts b)
  with assms show ?thesis by (simp add: patchBroadcast_devices)
qed

lemma run_stamped:
  "stamped c (devices s) \<Longrightarrow> clock_steady c rs \<Longrightarrow>
   list_all (\<lambda>r. \<not> supplies_lastSeen r) rs \<Longrightarrow>
   stamped (last_reading c rs) (devices (run rs s))"
proof (induction rs arbitrary: c s)
  case Nil
  then show ?case by simp
next
  case (Cons r rs)
  let ?c = "case request_clock r of None \<Rightarrow> c | Some clk \<Rightarrow> iso clk"
  from Cons.prems have ns: "\<not> supplies_lastSeen r"
    and rest: "list_all (\<lambda>r. \<not> supplies_lastSeen r) rs" by simp_all
  from Cons.prems(2)
  have le: "case request_clock r of None \<Rightarrow> True | Some clk \<Rightarrow> str_le c (iso clk)"
    and st: "clock_steady ?c rs"
    by (auto split: option.splits)
  from handle_stamped [OF Cons.prems(1) ns le]
  have "stamped ?c (devices (handle r s))" .
  from Cons.IH [OF this st rest] show ?case by simp
qed

text \<open>
  C9, amended. In every state, registering a token that no record has appends exactly
  one record, and registering a token that a record has leaves the number of records
  unchanged and sets the lastSeen of the matched record to the clock reading of the
  call. In every state that requests reach from the empty collections, when no
  registration body brought its own lastSeen and the clock has not gone back, that
  reading is later than or equal to the record's previous lastSeen.
\<close>

theorem registerDevice_count_and_lastSeen:
  assumes "truthy (device ''token'')"
  shows "(findIndex (\<lambda>d. d ''token'' = device ''token'') (devices s) = None \<longrightarrow>
            length (devices (snd (registerDevice clk device s))) = length (devices s) + 1 \<and>
            findIndex (\<lambda>d. d ''token'' = device ''token'')
              (devices (snd (registerDevice clk device s))) = Some (length (devices s))) \<and>
         (\<forall>i. findIndex (\<lambda>d. d ''token'' = device ''token'') (devices s) = Some i \<longrightarrow>
            length (devices (snd (registerDevice clk device s))) = length (devices s) \<and>
            findIndex (\<lambda>d. d ''token'' = device ''token'')
              (devices (snd (registerDevice clk device s))) = Some i \<and>
            (devices (snd (registerDevice clk device s)) ! i) ''lastSeen''
              = Some (JStr (iso clk)) \<and>
            (\<forall>rs. s = run rs empty_db \<and> clock_steady [] rs \<and>
                  list_all (\<lambda>r. \<not> supplies_lastSeen r) rs \<and>
                  str_le (last_reading [] rs) (iso clk) \<longrightarrow>
               later_or_equal
                 ((devices (snd (registerDevice clk device s)) ! i) ''lastSeen'')
                 ((devices s ! i) ''lastSeen'')))"
proof (intro conjI impI allI)
  let ?P = "\<lambda>d::obj. d ''token'' = device ''token''"
  let ?s1 = "snd (registerDevice clk device s)"
  {
    assume n: "findIndex ?P (devices s) = None"
    note new = registerDevice_new [of device s, OF assms n]
    show "length (devices ?s1) = length (devices s) + 1" by (simp add: new)
    have "?P (new_device clk device)" by (rule new_device_token [of device, OF assms])
    from findIndex_append_new [of ?P "devices s" "new_device clk device", OF n this]
    show "findIndex ?P (devices ?s1) = Some (length (devices s))" by (simp add: new)
  }
  {
    fix i assume k: "findIndex ?P (devices s) = Some i"
    note known = registerDevice_known [of device s i, OF assms k]
    from findIndex_Some [OF k] have i: "i < length (devices s)" by simp
    show "length (devices ?s1) = length (devices s)" by (simp add: known)
    have "?P (assign_device clk device (devices s ! i))"
      by (rule assign_device_token [of device, OF assms])
    from findIndex_update [of ?P "devices s" i "assign_device clk device (devices s ! i)",
        OF k this]
    show "findIndex ?P (devices ?s1) = Some i" by (simp add: known)
    show ls: "(devices ?s1 ! i) ''lastSeen'' = Some (JStr (iso clk))"
      by (simp add: known i assign_device_lastSeen)
    fix rs
    assume r: "s = run rs empty_db \<and> clock_steady [] rs \<and>
               list_all (\<lambda>r. \<not> supplies_lastSeen r) rs \<and>
               str_le (last_reading [] rs) (iso clk)"
    have "stamped [] (devices empty_db)" by (simp add: stamped_def empty_db_def)
    with r have "stamped (last_reading [] rs) (devices s)"
      by (simp add: run_stamped)
    with i
    have "later_or_equal (Some (JStr (last_reading [] rs))) ((devices s ! i) ''lastSeen'')"
      by (simp add: stamped_def list_all_length)
    with r have "later_or_equal (Some (JStr (iso clk))) ((devices s ! i) ''lastSeen'')"
      by (blast intro: later_or_equal_mono)
    then show "later_or_equal ((devices ?s1 ! i) ''lastSeen'') ((devices s ! i) ''lastSeen'')"
      by (simp add: ls)
  }
qed

theorem registerDevice_count_and_lastSeen_witness:
  "truthy (dev_t1 ''token'') \<and>
   findIndex (\<lambda>d. d ''token'' = dev_t1 ''token'') (devices empty_db) = None \<and>
   length (devices (snd (registerDevice clk_a dev_t1 empty_db))) =
     length (devices empty_db) + 1 \<and>
   clock_steady [] reqs_register_t1 \<and>
   list_all (\<lambda>r. \<not> supplies_lastSeen r) reqs_register_t1 \<and>
   str_le (last_reading [] reqs_register_t1) (iso clk_b) \<and>
   findIndex (\<lambda>d. d ''token'' = dev_t1 ''token'') (devices (run reqs_register_t1 empty_db))
     = Some 0 \<and>
   length (devices (snd (registerDevice clk_b dev_t1 (run reqs_register_t1 empty_db)))) =
     length (devices (run reqs_register_t1 empty_db)) \<and>
   later_or_equal
     ((devices (snd (registerDevice clk_b dev_t1 (run reqs_register_t1 empty_db))) ! 0)
        ''lastSeen'')
     ((devices (run reqs_register_t1 empty_db) ! 0) ''lastSeen'')"
proof -
  have a: "clock_steady [] reqs_register_t1" by (simp add: reqs_register_t1_def)
  have b: "list_all (\<lambda>r. \<not> supplies_lastSeen r) reqs_register_t1"
    by (simp add: reqs_register_t1_def dev_t1_def)
  have c: "str_le (last_reading [] reqs_register_t1) (iso clk_b)"
    by (simp add: reqs_register_t1_def clk_a_def clk_b_def)
  have t: "truthy (dev_t1 ''token'')" by (simp add: dev_t1_def)
  have n: "findIndex (\<lambda>d. d ''token'' = dev_t1 ''token'') (devices empty_db) = None"
    by (simp add: empty_db_def)
  have f: "findIndex (\<lambda>d. d ''token'' = dev_t1 ''token'')
             (devices (run reqs_register_t1 empty_db)) = Some 0"
    by (simp add: reqs_register_t1_def clk_a_def dev_t1_def handler_defs)
  from registerDevice_count_and_lastSeen [where device = dev_t1 and s = empty_db
      and clk = clk_a, OF t] n
  have A: "length (devices (snd (registerDevice clk_a dev_t1 empty_db))) =
     length (devices empty_db) + 1" by blast
  from registerDevice_count_and_lastSeen [where device = dev_t1
      and s = "run reqs_register_t1 empty_db" and clk = clk_b, OF t] f a b c
  have B: "length (devices (snd (registerDevice clk_b dev_t1 (run reqs_register_t1 empty_db)))) =
     length (devices (run reqs_register_t1 empty_db)) \<and>
   later_or_equal
     ((devices (snd (registerDevice clk_b dev_t1 (run reqs_register_t1 empty_db))) ! 0)
        ''lastSeen'')
     ((devices (run reqs_register_t1 empty_db) ! 0) ''lastSeen'')" by blast
  from a b c t n f A B show ?thesis by blast
qed

end
